theory Spec2Isabelle
  imports Complex_Main "HOL-Library.Monad_Syntax" "HOL-Library.Signed_Division"
begin

section \<open>StarfieldPainter (parallax.cpp)\<close>

text \<open>
  The C++ \<^verbatim>\<open>int\<close> is a 32-bit signed integer. The standard leaves signed overflow
  undefined; the compiled program computes in two's complement, and \<open>wrap32\<close> writes that
  wrap-around out. A \<^verbatim>\<open>uniform_int_distribution(a, b)\<close> with \<^verbatim>\<open>a > b\<close> is undefined
  behaviour and is a result of its own, \<open>Inl EmptyRange\<close>.
\<close>

datatype ub = EmptyRange

definition INT_MIN :: int where
  "INT_MIN = - 2147483648"

definition INT_MAX :: int where
  "INT_MAX = 2147483647"

definition in_int :: "int \<Rightarrow> bool" where
  "in_int v = (INT_MIN \<le> v \<and> v \<le> INT_MAX)"

definition wrap32 :: "int \<Rightarrow> int" where
  "wrap32 v = (v + 2147483648) mod 4294967296 - 2147483648"

definition ebind :: "ub + 'a \<Rightarrow> ('a \<Rightarrow> ub + 'b) \<Rightarrow> ub + 'b" where
  "ebind m f = (case m of Inl e \<Rightarrow> Inl e | Inr v \<Rightarrow> f v)"

text \<open>
  \<^verbatim>\<open>struct Star { int x, y; int color_type; int brightness; char symbol; }\<close>
\<close>

datatype Star = Star (star_x: int) (star_y: int) (color_type: int) (brightness: int) (symbol: char)

text \<open>
  The global \<^verbatim>\<open>std::mt19937 rng\<close>, seeded from \<^verbatim>\<open>std::random_device\<close>: the state is
  an arbitrary sequence of raw draws and the position reached in it, so that a statement
  for every \<open>rng\<close> is a statement for every outcome of the sampling.
\<close>

datatype rng = Rng (draws: "nat \<Rightarrow> nat") (pos: nat)

definition next_raw :: "rng \<Rightarrow> nat \<times> rng" where
  "next_raw g = (draws g (pos g), Rng (draws g) (Suc (pos g)))"

text \<open>
  \<^verbatim>\<open>std::uniform_int_distribution<int>(a, b)(rng)\<close>, by its contract in the standard
  library: it requires \<^verbatim>\<open>a <= b\<close> and returns a value of the closed interval; every
  value of the interval is returned for some raw draw.
\<close>

definition uniform_int_distribution :: "int \<Rightarrow> int \<Rightarrow> rng \<Rightarrow> ub + (int \<times> rng)" where
  "uniform_int_distribution a b g =
     (if b < a then Inl EmptyRange
      else (let (r, g') = next_raw g in Inr (a + int r mod (b - a + 1), g')))"

definition symbol_of :: "int \<Rightarrow> char" where
  "symbol_of br =
     (if br > 85 then CHR ''*''
      else if br > 65 then CHR ''+''
      else if br > 45 then CHR ''.''
      else CHR ''.'')"

text \<open>One iteration of the loop of \<^verbatim>\<open>main\<close> (lines 57 to 68).\<close>

definition gen_star :: "int \<Rightarrow> int \<Rightarrow> rng \<Rightarrow> ub + (Star \<times> rng)" where
  "gen_star cols rows g =
     ebind (uniform_int_distribution 3 (wrap32 (cols - 2)) g) (\<lambda>(sx, g1).
     ebind (uniform_int_distribution 4 (wrap32 (rows - 2)) g1) (\<lambda>(sy, g2).
     ebind (uniform_int_distribution 0 7 g2) (\<lambda>(ct, g3).
     ebind (uniform_int_distribution 0 100 g3) (\<lambda>(br, g4).
       Inr (Star sx sy ct br (symbol_of br), g4)))))"

text \<open>
  \<^verbatim>\<open>for(int i=0; i<num_stars; ++i) { ...; stars.push_back(s); }\<close> with the number of
  iterations left as the recursion argument.
\<close>

fun gen_stars :: "int \<Rightarrow> int \<Rightarrow> nat \<Rightarrow> rng \<Rightarrow> Star list \<Rightarrow> ub + Star list" where
  "gen_stars cols rows 0 g stars = Inr stars"
| "gen_stars cols rows (Suc n) g stars =
     ebind (gen_star cols rows g) (\<lambda>(s, g'). gen_stars cols rows n g' (stars @ [s]))"

text \<open>
  \<^verbatim>\<open>int num_stars = (cols * rows) / 35;\<close> The product wraps; C++ division truncates
  towards zero (\<open>sdiv\<close>). The loop runs \<open>nat num_stars\<close> times (not at all when the
  count is zero or negative).
\<close>

definition num_stars :: "int \<Rightarrow> int \<Rightarrow> int" where
  "num_stars cols rows = wrap32 (cols * rows) sdiv 35"

definition starfield :: "int \<Rightarrow> int \<Rightarrow> rng \<Rightarrow> ub + Star list" where
  "starfield cols rows g = gen_stars cols rows (nat (num_stars cols rows)) g []"

definition star_in_bounds :: "int \<Rightarrow> int \<Rightarrow> Star \<Rightarrow> bool" where
  "star_in_bounds xmax ymax s =
     (3 \<le> star_x s \<and> star_x s \<le> xmax \<and> 4 \<le> star_y s \<and> star_y s \<le> ymax)"

definition sample_rng :: rng where
  "sample_rng = Rng (\<lambda>n. 7919 * n + 13) 0"

section \<open>SceneShader: the fragment shader of \<^verbatim>\<open>christmas_tree.cpp\<close>\<close>

text \<open>
  GLSL \<^verbatim>\<open>float\<close> is idealised as \<open>real\<close>: the shader is modelled as the real function
  its text denotes, without rounding. A division is a fallible operation of the model:
  \<open>fdiv\<close> returns \<open>None\<close> on a zero divisor, and the pixel evaluation runs in the option
  monad.
\<close>

datatype vec2 = Vec2 (vx: real) (vy: real)

datatype vec3 = Vec3 (cr: real) (cg: real) (cb: real)

definition sub2 :: "vec2 \<Rightarrow> vec2 \<Rightarrow> vec2" where
  "sub2 a b = Vec2 (vx a - vx b) (vy a - vy b)"

definition add3 :: "vec3 \<Rightarrow> vec3 \<Rightarrow> vec3" where
  "add3 a b = Vec3 (cr a + cr b) (cg a + cg b) (cb a + cb b)"

definition scale3 :: "vec3 \<Rightarrow> real \<Rightarrow> vec3" where
  "scale3 a k = Vec3 (cr a * k) (cg a * k) (cb a * k)"

definition fdiv :: "real \<Rightarrow> real \<Rightarrow> real option" where
  "fdiv a b = (if b = 0 then None else Some (a / b))"

subsection \<open>GLSL built-in functions\<close>

text \<open>
  The built-ins are not part of the repository; they follow the GLSL specification:
  \<^verbatim>\<open>fract(x) = x - floor(x)\<close>, \<^verbatim>\<open>clamp(x, a, b) = min(max(x, a), b)\<close>,
  \<^verbatim>\<open>mix(x, y, a) = x*(1-a) + y*a\<close>, \<^verbatim>\<open>length\<close> the Euclidean norm, and
  \<^verbatim>\<open>smoothstep(e0, e1, x)\<close> the Hermite polynomial \<^verbatim>\<open>t*t*(3 - 2*t)\<close> of
  \<^verbatim>\<open>t = clamp((x - e0) / (e1 - e0), 0, 1)\<close>. The shader calls \<^verbatim>\<open>smoothstep\<close> with
  \<^verbatim>\<open>e0 > e1\<close> for falling edges; the formula is taken as it is evaluated, and its
  division is checked like every other one. \<^verbatim>\<open>sign\<close>, \<^verbatim>\<open>abs\<close>, \<^verbatim>\<open>max\<close>, \<^verbatim>\<open>sin\<close>
  are \<open>sgn\<close>, \<open>abs\<close>, \<open>max\<close>, \<open>sin\<close> of HOL.
\<close>

definition fract :: "real \<Rightarrow> real" where
  "fract v = v - of_int \<lfloor>v\<rfloor>"

definition clamp :: "real \<Rightarrow> real \<Rightarrow> real \<Rightarrow> real" where
  "clamp v lo hi = min (max v lo) hi"

definition mix :: "real \<Rightarrow> real \<Rightarrow> real \<Rightarrow> real" where
  "mix a b k = a * (1 - k) + b * k"

definition mix3 :: "vec3 \<Rightarrow> vec3 \<Rightarrow> real \<Rightarrow> vec3" where
  "mix3 a b k = Vec3 (mix (cr a) (cr b) k) (mix (cg a) (cg b) k) (mix (cb a) (cb b) k)"

definition length2 :: "vec2 \<Rightarrow> real" where
  "length2 v = sqrt (vx v * vx v + vy v * vy v)"

text \<open>\<^verbatim>\<open>pow(x, y)\<close>; the shader only calls it with \<^verbatim>\<open>x >= 0\<close> and \<^verbatim>\<open>y > 0\<close>.\<close>

definition pow :: "real \<Rightarrow> real \<Rightarrow> real" where
  "pow v e = v powr e"

text \<open>
  \<^verbatim>\<open>atan(y, x)\<close>, the angle of the point \<open>(x, y)\<close> in \<open>(-pi, pi]\<close>. GLSL leaves
  \<^verbatim>\<open>atan(0, 0)\<close> undefined; the model returns 0 there, and no theorem below depends on
  that value.
\<close>

definition atan2 :: "real \<Rightarrow> real \<Rightarrow> real" where
  "atan2 y x =
     (if 0 < x then arctan (y / x)
      else if x < 0 then (if 0 \<le> y then arctan (y / x) + pi else arctan (y / x) - pi)
      else if 0 < y then pi / 2
      else if y < 0 then - (pi / 2)
      else 0)"

definition hermite :: "real \<Rightarrow> real" where
  "hermite t = t * t * (3 - 2 * t)"

definition smoothstep :: "real \<Rightarrow> real \<Rightarrow> real \<Rightarrow> real option" where
  "smoothstep e0 e1 v = do {
     q \<leftarrow> fdiv (v - e0) (e1 - e0);
     Some (hermite (clamp q 0 1))
   }"

subsection \<open>The shader\<close>

text \<open>\<^verbatim>\<open>float hash(float n) { return fract(sin(n) * 43758.5453123); }\<close>\<close>

definition hash :: "real \<Rightarrow> real" where
  "hash n = fract (sin n * 43758.5453123)"

text \<open>The locals of \<^verbatim>\<open>main\<close> that depend on the time only.\<close>

definition rotAngle :: "real \<Rightarrow> real" where
  "rotAngle time = time * 0.5"

definition rotPhase :: "real \<Rightarrow> real" where
  "rotPhase time = sin (rotAngle time)"

text \<open>Tree parameters and the constants of trunk and layers.\<close>

definition trunkHeight :: real where "trunkHeight = 0.08"
definition trunkWidth :: real where "trunkWidth = 0.045"
definition trunkTop :: real where "trunkTop = - 0.22"
definition trunkBottom :: real where "trunkBottom = trunkTop - trunkHeight"

definition layer1Bottom :: real where "layer1Bottom = - 0.24"
definition layer1Top :: real where "layer1Top = layer1Bottom + 0.28"
definition layer1Width :: real where "layer1Width = 0.26"

definition layer2Bottom :: real where "layer2Bottom = layer1Bottom + 0.15"
definition layer2Top :: real where "layer2Top = layer2Bottom + 0.26"
definition layer2Width :: real where "layer2Width = 0.21"

definition layer3Bottom :: real where "layer3Bottom = layer2Bottom + 0.14"
definition layer3Top :: real where "layer3Top = layer3Bottom + 0.24"
definition layer3Width :: real where "layer3Width = 0.16"

text \<open>
  The running accumulator \<^verbatim>\<open>(finalColor, finalAlpha)\<close> is passed through the stages.
  Trunk, lines 85 to 90.
\<close>

definition trunk :: "vec2 \<Rightarrow> real \<Rightarrow> vec3 \<times> real \<Rightarrow> (vec3 \<times> real) option" where
  "trunk p time acc =
     (if vy p > trunkBottom \<and> vy p < trunkTop \<and> \<bar>vx p\<bar> < trunkWidth then do {
        q \<leftarrow> fdiv (vx p) trunkWidth;
        let trunkShade = 0.7 + 0.3 * rotPhase time * q;
        let trunkColor = scale3 (Vec3 0.4 0.22 0.1) trunkShade;
        finalAlpha \<leftarrow> smoothstep trunkWidth (trunkWidth - 0.01) \<bar>vx p\<bar>;
        Some (trunkColor, finalAlpha)
      } else Some acc)"

text \<open>
  The three layer blocks (lines 113 to 155) are the same text up to the constants
  \<^verbatim>\<open>layerKBottom\<close>, \<^verbatim>\<open>layerKTop\<close>, \<^verbatim>\<open>layerKWidth\<close>, the parameters here.
\<close>

definition in_band :: "real \<Rightarrow> real \<Rightarrow> vec2 \<Rightarrow> bool" where
  "in_band layerBottom layerTop p = (vy p > layerBottom \<and> vy p < layerTop)"

definition layer :: "real \<Rightarrow> real \<Rightarrow> real \<Rightarrow> vec2 \<Rightarrow> real \<Rightarrow> vec3 \<times> real \<Rightarrow> (vec3 \<times> real) option" where
  "layer layerBottom layerTop layerKWidth p time acc =
     (if in_band layerBottom layerTop p then do {
        heightNorm \<leftarrow> fdiv (vy p - layerBottom) (layerTop - layerBottom);
        let layerWidth = layerKWidth * (1 - heightNorm);
        if \<bar>vx p\<bar> < layerWidth then do {
          q \<leftarrow> fdiv (vx p) (max layerWidth 0.01);
          let shade = 0.6 + 0.4 * (0.5 + 0.5 * rotPhase time * q);
          let shade = shade * (0.85 + 0.15 * heightNorm);
          let treeGreen = mix3 (Vec3 0 0.18 0.1) (Vec3 0 0.45 0.25) shade;
          w \<leftarrow> fdiv \<bar>vx p\<bar> layerWidth;
          let treeGreen = add3 treeGreen (scale3 (scale3 (Vec3 0 0.15 0.08) (1 - w)) 0.5);
          edgeSoftness \<leftarrow> smoothstep layerWidth (layerWidth - 0.015) \<bar>vx p\<bar>;
          Some (treeGreen, max (snd acc) edgeSoftness)
        } else Some acc
      } else Some acc)"

text \<open>
  The local \<^verbatim>\<open>layerWidth\<close> of a layer block as a function of the pixel, for stating
  when the inner test \<^verbatim>\<open>abs(p.x) < layerWidth\<close> holds.
\<close>

definition layerWidth_at :: "real \<Rightarrow> real \<Rightarrow> real \<Rightarrow> vec2 \<Rightarrow> real" where
  "layerWidth_at layerBottom layerTop layerKWidth p =
     layerKWidth * (1 - (vy p - layerBottom) / (layerTop - layerBottom))"

definition lightColors :: "vec3 list" where
  "lightColors =
     [Vec3 1.0 0.15 0.5, Vec3 0.0 1.0 1.0, Vec3 1.0 0.85 0.0, Vec3 0.65 0.1 1.0,
      Vec3 0.2 1.0 0.45, Vec3 1.0 0.45 0.0, Vec3 0.2 0.6 1.0, Vec3 1.0 0.05 0.65]"

definition lightPositions :: "vec2 list" where
  "lightPositions =
     [Vec2 (- 0.12) (- 0.15), Vec2 0.10 (- 0.10), Vec2 (- 0.06) (- 0.02),
      Vec2 0.14 (- 0.18), Vec2 (- 0.08) 0.08, Vec2 0.06 0.02,
      Vec2 (- 0.03) 0.15, Vec2 0.09 0.10, Vec2 (- 0.05) 0.22,
      Vec2 0.04 0.18, Vec2 (- 0.02) 0.28, Vec2 0.02 0.25]"

text \<open>
  The locals of one iteration of the light loop up to the blink (lines 186 to 200), as
  computed at pixel \<open>p\<close>, time \<open>time\<close> and index \<open>i\<close>. \<open>lv_blink0\<close> is \<^verbatim>\<open>blink\<close> before the
  side visibility is multiplied in, \<open>lv_blink\<close> after.
\<close>

datatype light_vars = LightVars
  (lv_lightPos: vec2) (lv_d: real) (lv_blinkPhase: real) (lv_blinkSpeed: real)
  (lv_blink0: real) (lv_sideVisibility: real) (lv_blink: real)

definition light_locals :: "vec2 \<Rightarrow> real \<Rightarrow> nat \<Rightarrow> light_vars" where
  "light_locals p time i =
     (let lightPos = lightPositions ! i;
          lightPos = Vec2 (vx lightPos + sin (rotAngle time + real i * 0.5) * 0.015) (vy lightPos);
          d = length2 (sub2 p lightPos);
          blinkPhase = real i * 0.8 + hash (real i) * 6.28;
          blinkSpeed = 2.0 + hash (real i + 5.0) * 2.0;
          blink = 0.3 + 0.7 * pow (0.5 + 0.5 * sin (time * blinkSpeed + blinkPhase)) 2.0;
          sideVisibility = 0.5 + 0.5 * sgn (vx lightPos) * rotPhase time
      in LightVars lightPos d blinkPhase blinkSpeed blink sideVisibility
           (blink * (0.3 + 0.7 * sideVisibility)))"

text \<open>The rest of the iteration (lines 203 to 212).\<close>

definition light :: "vec2 \<Rightarrow> real \<Rightarrow> nat \<Rightarrow> vec3 \<times> real \<Rightarrow> (vec3 \<times> real) option" where
  "light p time i acc = do {
     let lv = light_locals p time i;
     core \<leftarrow> smoothstep 0.025 0.005 (lv_d lv);
     let lightCore = core * lv_blink lv;
     glow \<leftarrow> smoothstep 0.07 0.01 (lv_d lv);
     let lightGlow = glow * lv_blink lv * 0.5;
     let colorIdx = i - (i div 8) * 8;
     let thisColor = lightColors ! colorIdx;
     let finalColor = mix3 (fst acc) thisColor lightCore;
     let finalColor = add3 finalColor (scale3 thisColor lightGlow);
     Some (finalColor, max (snd acc) (lightCore + lightGlow * 0.5))
   }"

text \<open>\<^verbatim>\<open>for (int i = 0; i < 12; i++)\<close>: the iterations from \<open>i\<close>, \<open>n\<close> of them.\<close>

fun lights :: "vec2 \<Rightarrow> real \<Rightarrow> nat \<Rightarrow> nat \<Rightarrow> vec3 \<times> real \<Rightarrow> (vec3 \<times> real) option" where
  "lights p time i 0 acc = Some acc"
| "lights p time i (Suc n) acc = do {
     acc' \<leftarrow> light p time i acc;
     lights p time (Suc i) n acc'
   }"

text \<open>Star on top, lines 218 to 244.\<close>

definition starPulse :: "real \<Rightarrow> real" where
  "starPulse time = 0.8 + 0.2 * sin (time * 3.0)"

definition starPos :: vec2 where
  "starPos = Vec2 0.0 0.38"

definition starDist :: "vec2 \<Rightarrow> real" where
  "starDist p = length2 (sub2 p starPos)"

definition starAngle :: "vec2 \<Rightarrow> real" where
  "starAngle p = atan2 (vy p - vy starPos) (vx p - vx starPos)"

text \<open>\<^verbatim>\<open>starShape\<close> after \<^verbatim>\<open>starShape *= starPulse\<close>.\<close>

definition starShape :: "vec2 \<Rightarrow> real \<Rightarrow> real" where
  "starShape p time =
     (0.025 + 0.015 * pow \<bar>sin (starAngle p * 2.5 + 0.5)\<bar> 2.0) * starPulse time"

definition rays :: "vec2 \<Rightarrow> real \<Rightarrow> real" where
  "rays p time = pow \<bar>sin (starAngle p * 5.0 + time * 1.2)\<bar> 4.0"

definition star :: "vec2 \<Rightarrow> real \<Rightarrow> vec3 \<times> real \<Rightarrow> (vec3 \<times> real) option" where
  "star p time acc = do {
     body \<leftarrow> smoothstep (starShape p time) (starShape p time * 0.3) (starDist p);
     glow \<leftarrow> smoothstep 0.1 0.0 (starDist p);
     let starGlow = glow * 0.6 * starPulse time;
     ray \<leftarrow> smoothstep 0.12 0.02 (starDist p);
     let starRays = ray * rays p time * 0.4 * starPulse time;
     let starGold = Vec3 1.0 0.85 0.1;
     let starWhite = Vec3 1.0 1.0 0.95;
     let finalColor = mix3 (fst acc) starGold (starGlow + starRays);
     let finalColor = mix3 finalColor (mix3 starGold starWhite 0.7) body;
     Some (finalColor, max (snd acc) (body + starGlow * 0.8 + starRays * 0.5))
   }"

text \<open>
  Edge glow, lines 249 to 252. \<open>glow_contribution\<close> is what the stage adds to the colour:
  the colour after the stage minus the colour before it.
\<close>

definition edge_glow :: "vec3 \<times> real \<Rightarrow> vec3 \<times> real" where
  "edge_glow acc =
     (let finalColor = fst acc; finalAlpha = snd acc in
      if finalAlpha > 0.1 \<and> finalAlpha < 0.95 then
        (let edgeGlow = scale3 (scale3 (Vec3 0.0 0.9 0.5) (1.0 - finalAlpha)) 0.3
         in (add3 finalColor edgeGlow, finalAlpha))
      else (finalColor, finalAlpha))"

definition sub3 :: "vec3 \<Rightarrow> vec3 \<Rightarrow> vec3" where
  "sub3 a b = Vec3 (cr a - cr b) (cg a - cg b) (cb a - cb b)"

definition glow_contribution :: "vec3 \<times> real \<Rightarrow> vec3" where
  "glow_contribution acc = sub3 (fst (edge_glow acc)) (fst acc)"

text \<open>Vignette, line 259: \<^verbatim>\<open>uv - 0.5\<close> subtracts 0.5 from both components.\<close>

definition center_dist :: "vec2 \<Rightarrow> real" where
  "center_dist uv = length2 (sub2 uv (Vec2 0.5 0.5))"

definition vignette :: "vec2 \<Rightarrow> real option" where
  "vignette uv = do {
     s \<leftarrow> smoothstep 0.4 0.7 (center_dist uv);
     Some (1.0 - s)
   }"

text \<open>
  Coordinate setup (lines 55 to 60) and the shape stages (trunk, layers, lights, star).
\<close>

definition centered :: "vec2 \<Rightarrow> vec2 \<Rightarrow> vec2 option" where
  "centered uResolution uv = do {
     aspect \<leftarrow> fdiv (vx uResolution) (vy uResolution);
     let p = sub2 uv (Vec2 0.5 0.35);
     Some (Vec2 (vx p * aspect) (vy p))
   }"

definition shapes :: "vec2 \<Rightarrow> real \<Rightarrow> (vec3 \<times> real) option" where
  "shapes p time = do {
     acc \<leftarrow> trunk p time (Vec3 0 0 0, 0);
     acc \<leftarrow> layer layer1Bottom layer1Top layer1Width p time acc;
     acc \<leftarrow> layer layer2Bottom layer2Top layer2Width p time acc;
     acc \<leftarrow> layer layer3Bottom layer3Top layer3Width p time acc;
     acc \<leftarrow> lights p time 0 12 acc;
     star p time acc
   }"

text \<open>
  \<^verbatim>\<open>(finalColor, finalAlpha)\<close> as it stands before the output section (line 253), after
  the edge glow and before the vignette.
\<close>

definition accumulated :: "vec2 \<Rightarrow> real \<Rightarrow> vec2 \<Rightarrow> (vec3 \<times> real) option" where
  "accumulated uResolution uTime uv = do {
     p \<leftarrow> centered uResolution uv;
     acc \<leftarrow> shapes p uTime;
     Some (edge_glow acc)
   }"

text \<open>
  \<^verbatim>\<open>main\<close> of the fragment shader: \<open>uResolution\<close> and \<open>uTime\<close> are the uniforms, \<open>fragCoord\<close>
  the normalized coordinate; the result is \<^verbatim>\<open>FragColor\<close> as colour and alpha.
\<close>

definition sceneShader :: "vec2 \<Rightarrow> real \<Rightarrow> vec2 \<Rightarrow> (vec3 \<times> real) option" where
  "sceneShader uResolution uTime fragCoord = do {
     let uv = fragCoord;
     (finalColor, finalAlpha) \<leftarrow> accumulated uResolution uTime uv;
     vignette \<leftarrow> vignette uv;
     let finalAlpha = finalAlpha * vignette;
     Some (finalColor, finalAlpha)
   }"

text \<open>\<^verbatim>\<open>Config::WIDTH\<close>, \<^verbatim>\<open>Config::HEIGHT\<close>, passed as \<^verbatim>\<open>uResolution\<close> by the host.\<close>

definition resolution :: vec2 where
  "resolution = Vec2 200 280"

section \<open>Properties of StarfieldPainter\<close>

lemma wrap32_id: "in_int v \<Longrightarrow> wrap32 v = v"
  by (simp add: wrap32_def in_int_def INT_MIN_def INT_MAX_def)

lemma wrap32_sub2:
  assumes "in_int c"
  shows "wrap32 (c - 2) = (if INT_MIN + 2 \<le> c then c - 2 else c - 2 + 4294967296)"
proof (cases "INT_MIN + 2 \<le> c")
  case True
  then have "in_int (c - 2)" using assms by (simp add: in_int_def INT_MIN_def INT_MAX_def)
  then show ?thesis using True by (simp add: wrap32_id)
next
  case False
  then have "c = - 2147483648 \<or> c = - 2147483647"
    using assms by (auto simp: in_int_def INT_MIN_def INT_MAX_def)
  then show ?thesis by (auto simp: wrap32_def INT_MIN_def)
qed

lemma wrap32_sub2_below:
  assumes "in_int c" "k \<le> 4" "0 \<le> k"
  shows "wrap32 (c - 2) < k \<longleftrightarrow> INT_MIN + 2 \<le> c \<and> c < k + 2"
  using assms unfolding wrap32_sub2 [OF assms(1)]
  by (auto simp: in_int_def INT_MIN_def INT_MAX_def)

lemma uniform_in_range:
  assumes "a \<le> b"
  shows "\<exists>v g'. uniform_int_distribution a b g = Inr (v, g') \<and> a \<le> v \<and> v \<le> b"
proof -
  obtain r g' where rg: "next_raw g = (r, g')" by (cases "next_raw g")
  have pos: "0 < b - a + 1" using assms by simp
  have lo: "0 \<le> int r mod (b - a + 1)" using pos by (rule pos_mod_sign)
  have "int r mod (b - a + 1) < b - a + 1" using pos by (rule pos_mod_bound)
  then have hi: "int r mod (b - a + 1) \<le> b - a" by linarith
  have "uniform_int_distribution a b g = Inr (a + int r mod (b - a + 1), g')"
    using assms rg by (simp add: uniform_int_distribution_def)
  moreover have "a \<le> a + int r mod (b - a + 1)" using lo by linarith
  moreover have "a + int r mod (b - a + 1) \<le> b" using hi by linarith
  ultimately show ?thesis by blast
qed

lemma uniform_empty: "b < a \<Longrightarrow> uniform_int_distribution a b g = Inl EmptyRange"
  by (simp add: uniform_int_distribution_def)

lemma gen_star_in_bounds:
  assumes "3 \<le> wrap32 (cols - 2)" "4 \<le> wrap32 (rows - 2)"
  shows "\<exists>s g'. gen_star cols rows g = Inr (s, g') \<and>
           star_in_bounds (wrap32 (cols - 2)) (wrap32 (rows - 2)) s"
proof -
  obtain sx g1 where x: "uniform_int_distribution 3 (wrap32 (cols - 2)) g = Inr (sx, g1)"
    "3 \<le> sx" "sx \<le> wrap32 (cols - 2)"
    using uniform_in_range [OF assms(1), of g] by auto
  obtain sy g2 where y: "uniform_int_distribution 4 (wrap32 (rows - 2)) g1 = Inr (sy, g2)"
    "4 \<le> sy" "sy \<le> wrap32 (rows - 2)"
    using uniform_in_range [OF assms(2), of g1] by auto
  obtain ct g3 where c: "uniform_int_distribution 0 7 g2 = Inr (ct, g3)"
    using uniform_in_range [of 0 7 g2] by auto
  obtain br g4 where b: "uniform_int_distribution 0 100 g3 = Inr (br, g4)"
    using uniform_in_range [of 0 100 g3] by auto
  show ?thesis
    using x y c b by (simp add: gen_star_def ebind_def star_in_bounds_def)
qed

lemma gen_star_empty_range:
  assumes "wrap32 (cols - 2) < 3 \<or> wrap32 (rows - 2) < 4"
  shows "gen_star cols rows g = Inl EmptyRange"
proof (cases "wrap32 (cols - 2) < 3")
  case True
  then show ?thesis by (simp add: gen_star_def ebind_def uniform_empty)
next
  case False
  then have r: "wrap32 (rows - 2) < 4" and c: "3 \<le> wrap32 (cols - 2)" using assms by auto
  obtain sx g1 where x: "uniform_int_distribution 3 (wrap32 (cols - 2)) g = Inr (sx, g1)"
    using uniform_in_range [OF c, of g] by auto
  show ?thesis using r x by (simp add: gen_star_def ebind_def uniform_empty)
qed

lemma gen_stars_in_bounds:
  assumes "3 \<le> wrap32 (cols - 2)" "4 \<le> wrap32 (rows - 2)"
  shows "\<forall>s \<in> set acc. star_in_bounds (wrap32 (cols - 2)) (wrap32 (rows - 2)) s \<Longrightarrow>
         \<exists>stars. gen_stars cols rows n g acc = Inr stars \<and> length stars = length acc + n \<and>
           (\<forall>s \<in> set stars. star_in_bounds (wrap32 (cols - 2)) (wrap32 (rows - 2)) s)"
proof (induction n arbitrary: g acc)
  case 0
  then show ?case by simp
next
  case (Suc n)
  obtain s g' where s: "gen_star cols rows g = Inr (s, g')"
    "star_in_bounds (wrap32 (cols - 2)) (wrap32 (rows - 2)) s"
    using gen_star_in_bounds [OF assms, of g] by auto
  have "\<forall>t \<in> set (acc @ [s]). star_in_bounds (wrap32 (cols - 2)) (wrap32 (rows - 2)) t"
    using Suc.prems s by auto
  from Suc.IH [OF this, of g'] show ?case using s by (auto simp: ebind_def)
qed

lemma gen_stars_empty_range:
  assumes "wrap32 (cols - 2) < 3 \<or> wrap32 (rows - 2) < 4"
  shows "gen_stars cols rows (Suc n) g acc = Inl EmptyRange"
  using gen_star_empty_range [OF assms, of g] by (simp add: ebind_def)

lemma num_stars_80_24: "num_stars 80 24 = 54"
  by (simp add: num_stars_def wrap32_def signed_divide_int_def)

lemma starfield_defined:
  assumes "3 \<le> wrap32 (cols - 2)" "4 \<le> wrap32 (rows - 2)"
  shows "\<exists>stars. starfield cols rows g = Inr stars \<and> length stars = nat (num_stars cols rows) \<and>
     (\<forall>s \<in> set stars. star_in_bounds (wrap32 (cols - 2)) (wrap32 (rows - 2)) s)"
proof -
  have "\<exists>stars. gen_stars cols rows (nat (num_stars cols rows)) g [] = Inr stars \<and>
      length stars = length ([]::Star list) + nat (num_stars cols rows) \<and>
      (\<forall>s \<in> set stars. star_in_bounds (wrap32 (cols - 2)) (wrap32 (rows - 2)) s)"
    by (rule gen_stars_in_bounds [OF assms]) simp
  then show ?thesis by (simp add: starfield_def)
qed

lemma starfield_empty_range:
  assumes "1 \<le> num_stars cols rows" "wrap32 (cols - 2) < 3 \<or> wrap32 (rows - 2) < 4"
  shows "starfield cols rows g = Inl EmptyRange"
proof -
  obtain n where n: "nat (num_stars cols rows) = Suc n"
    using assms(1) by (cases "nat (num_stars cols rows)") auto
  show ?thesis unfolding starfield_def n by (rule gen_stars_empty_range [OF assms(2)])
qed

text \<open>
  Claim C9. With \<open>columns = 80\<close> and \<open>rows = 24\<close> the painter generates exactly
  \<open>(80 * 24) / 35 = 54\<close> stars, and for every outcome of the random sampling (every
  \<open>rng\<close>) each star has \<open>3 \<le> x \<le> columns - 2\<close> and \<open>4 \<le> y \<le> rows - 2\<close>.
\<close>

theorem starfield_80_24:
  "num_stars 80 24 = (80 * 24) div 35 \<and> (80 * 24) div 35 = (54::int) \<and>
   (\<exists>stars. starfield 80 24 g = Inr stars \<and> length stars = 54 \<and>
     (\<forall>s \<in> set stars. 3 \<le> star_x s \<and> star_x s \<le> 80 - 2 \<and> 4 \<le> star_y s \<and> star_y s \<le> 24 - 2))"
proof -
  have w: "wrap32 78 = 78" "wrap32 22 = 22" by (simp_all add: wrap32_def)
  have "\<exists>stars. starfield 80 24 g = Inr stars \<and> length stars = nat (num_stars 80 24) \<and>
     (\<forall>s \<in> set stars. star_in_bounds 78 22 s)"
    using starfield_defined [of 80 24 g] by (simp add: w)
  then have "\<exists>stars. starfield 80 24 g = Inr stars \<and> length stars = 54 \<and>
     (\<forall>s \<in> set stars. 3 \<le> star_x s \<and> star_x s \<le> 80 - 2 \<and> 4 \<le> star_y s \<and> star_y s \<le> 24 - 2)"
    by (auto simp: num_stars_80_24 star_in_bounds_def)
  then show ?thesis using num_stars_80_24 by simp
qed

theorem starfield_80_24_witness:
  "(case starfield 80 24 sample_rng of
      Inl e \<Rightarrow> False
    | Inr stars \<Rightarrow> length stars = 54 \<and> list_all (star_in_bounds 78 22) stars)"
  using starfield_80_24 [of sample_rng]
  by (auto simp: list_all_iff star_in_bounds_def)

text \<open>
  Claim C10, as amended. With the 32-bit wrap-around arithmetic of the compiled program,
  for all \<^verbatim>\<open>int\<close> values of columns and rows: a star count of zero or less samples
  nothing; when the computed star count is at least 1, the first iteration constructs a distribution over an empty range exactly
  when \<open>-2147483646 \<le> columns < 5\<close> or \<open>-2147483646 \<le> rows < 6\<close>; in every other case
  (among them \<open>columns \<ge> 5\<close> and \<open>rows \<ge> 6\<close>) the run is defined, generates the computed
  number of stars, and every sampled position is within \<open>[3, columns - 2]\<close> and
  \<open>[4, rows - 2]\<close>, the two upper bounds taken as the wrapped \<^verbatim>\<open>int\<close> values. For
  columns or rows of \<open>-2147483648\<close> or \<open>-2147483647\<close> the subtraction wraps to a bound
  of at least \<open>2147483646\<close>, so the precondition \<open>columns \<ge> 5\<close> and \<open>rows \<ge> 6\<close> is
  sufficient, not necessary.
\<close>

theorem starfield_sampling_defined:
  assumes "in_int cols" "in_int rows"
  shows "(num_stars cols rows \<le> 0 \<longrightarrow> starfield cols rows g = Inr []) \<and>
     (1 \<le> num_stars cols rows \<longrightarrow>
       (starfield cols rows g = Inl EmptyRange \<longleftrightarrow>
          (- 2147483646 \<le> cols \<and> cols < 5) \<or> (- 2147483646 \<le> rows \<and> rows < 6))) \<and>
     (\<not> ((- 2147483646 \<le> cols \<and> cols < 5) \<or> (- 2147483646 \<le> rows \<and> rows < 6)) \<longrightarrow>
       (\<exists>stars. starfield cols rows g = Inr stars \<and>
          length stars = nat (num_stars cols rows) \<and>
          (\<forall>s \<in> set stars. 3 \<le> star_x s \<and> star_x s \<le> wrap32 (cols - 2) \<and>
                            4 \<le> star_y s \<and> star_y s \<le> wrap32 (rows - 2)))) \<and>
     (5 \<le> cols \<longrightarrow> wrap32 (cols - 2) = cols - 2) \<and>
     (6 \<le> rows \<longrightarrow> wrap32 (rows - 2) = rows - 2) \<and>
     (cols < - 2147483646 \<longrightarrow> 2147483646 \<le> wrap32 (cols - 2)) \<and>
     (rows < - 2147483646 \<longrightarrow> 2147483646 \<le> wrap32 (rows - 2))"
proof -
  let ?small = "(- 2147483646 \<le> cols \<and> cols < 5) \<or> (- 2147483646 \<le> rows \<and> rows < 6)"
  have cx: "wrap32 (cols - 2) < 3 \<longleftrightarrow> - 2147483646 \<le> cols \<and> cols < 5"
    using wrap32_sub2_below [OF assms(1), of 3] by (simp add: INT_MIN_def)
  have cy: "wrap32 (rows - 2) < 4 \<longleftrightarrow> - 2147483646 \<le> rows \<and> rows < 6"
    using wrap32_sub2_below [OF assms(2), of 4] by (simp add: INT_MIN_def)
  have ok: "\<exists>stars. starfield cols rows g = Inr stars \<and>
          length stars = nat (num_stars cols rows) \<and>
          (\<forall>s \<in> set stars. 3 \<le> star_x s \<and> star_x s \<le> wrap32 (cols - 2) \<and>
                            4 \<le> star_y s \<and> star_y s \<le> wrap32 (rows - 2))"
    if n: "\<not> ?small"
  proof -
    have "3 \<le> wrap32 (cols - 2)" "4 \<le> wrap32 (rows - 2)" using n cx cy by auto
    then show ?thesis using starfield_defined [of cols rows g] by (simp add: star_in_bounds_def)
  qed
  have 1: "starfield cols rows g = Inl EmptyRange \<longleftrightarrow> ?small" if c: "1 \<le> num_stars cols rows"
  proof
    assume "starfield cols rows g = Inl EmptyRange"
    then show ?small using ok by fastforce
  next
    assume ?small
    then have "wrap32 (cols - 2) < 3 \<or> wrap32 (rows - 2) < 4" using cx cy by simp
    then show "starfield cols rows g = Inl EmptyRange" using c by (rule starfield_empty_range [rotated])
  qed
  have 3: "wrap32 (cols - 2) = cols - 2" if "5 \<le> cols"
    using that wrap32_sub2 [OF assms(1)] by (simp add: INT_MIN_def)
  have 4: "wrap32 (rows - 2) = rows - 2" if "6 \<le> rows"
    using that wrap32_sub2 [OF assms(2)] by (simp add: INT_MIN_def)
  have 5: "2147483646 \<le> wrap32 (cols - 2)" if "cols < - 2147483646"
    using that assms(1) wrap32_sub2 [OF assms(1)] by (simp add: INT_MIN_def in_int_def)
  have 6: "2147483646 \<le> wrap32 (rows - 2)" if "rows < - 2147483646"
    using that assms(2) wrap32_sub2 [OF assms(2)] by (simp add: INT_MIN_def in_int_def)
  have 0: "starfield cols rows g = Inr []" if "num_stars cols rows \<le> 0"
    using that by (simp add: starfield_def)
  show ?thesis using 0 1 ok 3 4 5 6 by blast
qed

theorem starfield_sampling_defined_witness:
  "starfield 4 24 sample_rng = Inl EmptyRange \<and>
   starfield 80 5 sample_rng = Inl EmptyRange \<and>
   starfield (- 1) (- 2147483647) sample_rng = Inl EmptyRange \<and>
   (case starfield 80 24 sample_rng of
      Inl e \<Rightarrow> False
    | Inr stars \<Rightarrow> length stars = 54 \<and> stars \<noteq> [] \<and> list_all (star_in_bounds 78 22) stars)"
proof -
  have r: "in_int 4" "in_int 24" "in_int 80" "in_int 5" "in_int (- 1)" "in_int (- 2147483647)"
    by (simp_all add: in_int_def INT_MIN_def INT_MAX_def)
  have d: "1 \<le> num_stars 4 24" "1 \<le> num_stars 80 5" "1 \<le> num_stars (- 1) (- 2147483647)"
    "nat (num_stars 80 24) = 54"
    by (simp_all add: num_stars_def wrap32_def signed_divide_int_def)
  have 1: "starfield 4 24 sample_rng = Inl EmptyRange"
    using starfield_sampling_defined [OF r(1) r(2), of sample_rng] d by simp
  have 2: "starfield 80 5 sample_rng = Inl EmptyRange"
    using starfield_sampling_defined [OF r(3) r(4), of sample_rng] d by simp
  have 3: "starfield (- 1) (- 2147483647) sample_rng = Inl EmptyRange"
    using starfield_sampling_defined [OF r(5) r(6), of sample_rng] d by simp
  have 4: "\<exists>stars. starfield 80 24 sample_rng = Inr stars \<and> length stars = 54 \<and>
      (\<forall>s \<in> set stars. star_in_bounds 78 22 s)"
    using starfield_sampling_defined [OF r(3) r(2), of sample_rng] d
    by (simp add: star_in_bounds_def wrap32_def)
  show ?thesis using 1 2 3 4 by (auto simp: list_all_iff)
qed

text \<open>
  Claim C10 as stated fails at \<open>columns = -2147483647\<close>, \<open>rows = 36\<close>: the product wraps
  to 36, the star count is 1 and \<open>columns < 5\<close>, but \<^verbatim>\<open>cols - 2\<close> wraps to
  \<open>2147483647\<close>; both ranges, \<open>[3, 2147483647]\<close> and \<open>[4, 34]\<close>, are non-empty and the run
  emits a star.
\<close>

theorem starfield_no_empty_range_counterexample:
  "in_int (- 2147483647) \<and> in_int 36 \<and>
   num_stars (- 2147483647) 36 = 1 \<and> (- 2147483647 :: int) < 5 \<and>
   wrap32 (- 2147483647 - 2) = 2147483647 \<and> wrap32 (36 - 2) = 34 \<and>
   starfield (- 2147483647) 36 sample_rng = Inr [Star 16 31 3 35 CHR ''.''] \<and>
   starfield (- 2147483647) 36 sample_rng \<noteq> Inl EmptyRange"
proof -
  have n: "num_stars (- 2147483647) 36 = 1"
    by (simp add: num_stars_def wrap32_def signed_divide_int_def)
  have w: "wrap32 (- 2147483647 - 2) = 2147483647" "wrap32 (36 - 2) = 34"
    by (simp_all add: wrap32_def)
  have g: "\<exists>g'. gen_star (- 2147483647) 36 sample_rng = Inr (Star 16 31 3 35 CHR ''.'', g')"
    unfolding gen_star_def w
    by (simp add: ebind_def uniform_int_distribution_def next_raw_def sample_rng_def
        symbol_of_def)
  have "gen_stars (- 2147483647) 36 (Suc 0) sample_rng [] = Inr [Star 16 31 3 35 CHR ''.'']"
    using g by (auto simp: ebind_def)
  then have s: "starfield (- 2147483647) 36 sample_rng = Inr [Star 16 31 3 35 CHR ''.'']"
    by (simp add: starfield_def n)
  show ?thesis using n w s by (simp add: in_int_def INT_MIN_def INT_MAX_def)
qed

section \<open>Properties of the GLSL built-ins\<close>

subsection \<open>Built-ins\<close>

lemma hermite_ge_0: "0 \<le> t \<Longrightarrow> t \<le> 1 \<Longrightarrow> 0 \<le> hermite t"
  by (simp add: hermite_def)

lemma hermite_le_1:
  assumes "0 \<le> t" "t \<le> 1"
  shows "hermite t \<le> 1"
proof -
  have "1 - hermite t = (1 - t) * (1 - t) * (1 + 2 * t)"
    by (simp add: hermite_def algebra_simps)
  moreover have "0 \<le> (1 - t) * (1 - t) * (1 + 2 * t)" using assms by simp
  ultimately show ?thesis by linarith
qed

lemma hermite_mono:
  assumes "0 \<le> s" "s \<le> t" "t \<le> 1"
  shows "hermite s \<le> hermite t"
proof -
  have "hermite t - hermite s = (t - s) * (s * (3 - 2 * s - t) + t * (3 - 2 * t - s))"
    by (simp add: hermite_def algebra_simps)
  moreover have "0 \<le> s * (3 - 2 * s - t)" using assms by simp
  moreover have "0 \<le> t * (3 - 2 * t - s)" using assms by simp
  moreover have "0 \<le> t - s" using assms by simp
  ultimately have "0 \<le> hermite t - hermite s" by simp
  then show ?thesis by simp
qed

lemma hermite_0: "hermite 0 = 0" and hermite_1: "hermite 1 = 1"
  by (simp_all add: hermite_def)

lemma clamp_range: "0 \<le> clamp q 0 1" "clamp q 0 1 \<le> 1"
  by (simp_all add: clamp_def)

lemma clamp_mono: "q \<le> r \<Longrightarrow> clamp q 0 1 \<le> clamp r 0 1"
  by (simp add: clamp_def min_def max_def)

lemma smoothstep_Some:
  "e1 \<noteq> e0 \<Longrightarrow> smoothstep e0 e1 v = Some (hermite (clamp ((v - e0) / (e1 - e0)) 0 1))"
  by (simp add: smoothstep_def fdiv_def)

lemma smoothstep_range:
  assumes "smoothstep e0 e1 v = Some s"
  shows "0 \<le> s \<and> s \<le> 1"
proof -
  obtain q where "s = hermite (clamp q 0 1)"
    using assms by (auto simp: smoothstep_def fdiv_def split: if_splits)
  then show ?thesis using hermite_ge_0 hermite_le_1 clamp_range by simp
qed

lemma smoothstep_falling_out:
  assumes "e1 < e0" "e0 \<le> v"
  shows "smoothstep e0 e1 v = Some 0"
proof -
  have "(v - e0) / (e1 - e0) \<le> 0"
    using assms by (simp add: divide_nonneg_neg)
  then have "clamp ((v - e0) / (e1 - e0)) 0 1 = 0" by (simp add: clamp_def)
  then show ?thesis using assms smoothstep_Some [of e1 e0 v] by (simp add: hermite_0)
qed

lemma smoothstep_falling_in:
  assumes "e1 < e0" "v \<le> e1"
  shows "smoothstep e0 e1 v = Some 1"
proof -
  have "1 \<le> (v - e0) / (e1 - e0)"
    using assms by (simp add: neg_le_divide_eq)
  then have "clamp ((v - e0) / (e1 - e0)) 0 1 = 1" by (simp add: clamp_def)
  then show ?thesis using assms smoothstep_Some [of e1 e0 v] by (simp add: hermite_1)
qed

lemma smoothstep_rising_below:
  assumes "e0 < e1" "v \<le> e0"
  shows "smoothstep e0 e1 v = Some 0"
proof -
  have "(v - e0) / (e1 - e0) \<le> 0"
    using assms by (simp add: divide_nonpos_pos)
  then have "clamp ((v - e0) / (e1 - e0)) 0 1 = 0" by (simp add: clamp_def)
  then show ?thesis using assms smoothstep_Some [of e1 e0 v] by (simp add: hermite_0)
qed

lemma smoothstep_rising_above:
  assumes "e0 < e1" "e1 \<le> v"
  shows "smoothstep e0 e1 v = Some 1"
proof -
  have "1 \<le> (v - e0) / (e1 - e0)"
    using assms by (simp add: le_divide_eq)
  then have "clamp ((v - e0) / (e1 - e0)) 0 1 = 1" by (simp add: clamp_def)
  then show ?thesis using assms smoothstep_Some [of e1 e0 v] by (simp add: hermite_1)
qed

lemma smoothstep_rising_mono:
  assumes "e0 < e1" "v \<le> w"
  shows "\<exists>s s'. smoothstep e0 e1 v = Some s \<and> smoothstep e0 e1 w = Some s' \<and> s \<le> s'"
proof -
  have "(v - e0) / (e1 - e0) \<le> (w - e0) / (e1 - e0)"
    using assms by (simp add: divide_right_mono)
  then have "clamp ((v - e0) / (e1 - e0)) 0 1 \<le> clamp ((w - e0) / (e1 - e0)) 0 1"
    by (rule clamp_mono)
  then have "hermite (clamp ((v - e0) / (e1 - e0)) 0 1) \<le> hermite (clamp ((w - e0) / (e1 - e0)) 0 1)"
    by (intro hermite_mono clamp_range)
  then show ?thesis using assms smoothstep_Some [of e1 e0] by simp
qed

lemma length2_ge_0: "0 \<le> length2 v"
  by (simp add: length2_def)

lemma length2_ge_x: "\<bar>vx v\<bar> \<le> length2 v"
proof -
  have "sqrt (vx v * vx v) \<le> sqrt (vx v * vx v + vy v * vy v)"
    by (rule real_sqrt_le_mono) simp
  moreover have "sqrt (vx v * vx v) = \<bar>vx v\<bar>" by simp
  ultimately show ?thesis unfolding length2_def by linarith
qed

lemma length2_ge_y: "\<bar>vy v\<bar> \<le> length2 v"
proof -
  have "sqrt (vy v * vy v) \<le> sqrt (vx v * vx v + vy v * vy v)"
    by (rule real_sqrt_le_mono) simp
  moreover have "sqrt (vy v * vy v) = \<bar>vy v\<bar>" by simp
  ultimately show ?thesis unfolding length2_def by linarith
qed

lemma pow_2: "0 \<le> v \<Longrightarrow> pow v 2 = v ^ 2"
  by (simp add: pow_def)

lemma pow_4: "0 \<le> v \<Longrightarrow> pow v 4 = v ^ 4"
  by (simp add: pow_def)

lemma pow_2_range: "0 \<le> v \<Longrightarrow> v \<le> 1 \<Longrightarrow> 0 \<le> pow v 2 \<and> pow v 2 \<le> 1"
  by (simp add: pow_2 power_le_one)

lemma pow_4_range: "0 \<le> v \<Longrightarrow> v \<le> 1 \<Longrightarrow> 0 \<le> pow v 4 \<and> pow v 4 \<le> 1"
  by (simp add: pow_4 power_le_one)

lemma hash_range: "0 \<le> hash n \<and> hash n < 1"
proof -
  have "hash n = frac (sin n * 43758.5453123)" by (simp add: hash_def fract_def frac_def)
  then show ?thesis using frac_lt_1 by simp
qed

lemma hash_0: "hash 0 = 0"
  by (simp add: hash_def fract_def)

section \<open>Properties of the shader stages\<close>

lemmas layer_consts = layer1Bottom_def layer1Top_def layer1Width_def layer2Bottom_def
  layer2Top_def layer2Width_def layer3Bottom_def layer3Top_def layer3Width_def

text \<open>
  Claim C2, as amended. The bands of layers 1 and 3 are disjoint, so at most two of the three
  band conditions hold at any centered coordinate; consecutive bands overlap: the
  conditions of layers 1 and 2 both hold exactly for \<open>-0.09 < p.y < 0.04\<close>, those of
  layers 2 and 3 exactly for \<open>0.05 < p.y < 0.17\<close>.
\<close>

theorem layer_bands_overlap:
  "\<not> (in_band layer1Bottom layer1Top p \<and> in_band layer3Bottom layer3Top p) \<and>
   (in_band layer1Bottom layer1Top p \<and> in_band layer2Bottom layer2Top p
      \<longleftrightarrow> - 0.09 < vy p \<and> vy p < 0.04) \<and>
   (in_band layer2Bottom layer2Top p \<and> in_band layer3Bottom layer3Top p
      \<longleftrightarrow> 0.05 < vy p \<and> vy p < 0.17)"
  by (auto simp: in_band_def layer_consts)

theorem layer_bands_overlap_witness:
  "in_band layer2Bottom layer2Top (Vec2 0 0.1) \<and> in_band layer3Bottom layer3Top (Vec2 0 0.1) \<and>
   \<not> in_band layer1Bottom layer1Top (Vec2 0 0.1)"
  using layer_bands_overlap [of "Vec2 0 0.1"] by auto

text \<open>
  Claim C2 as stated fails at \<open>p = (0, 0)\<close>, which lies in the bands of layer 1 and of
  layer 2.
\<close>

theorem layer_bands_disjoint_counterexample:
  "in_band layer1Bottom layer1Top (Vec2 0 0) \<and> in_band layer2Bottom layer2Top (Vec2 0 0)"
  by (simp add: in_band_def layer_consts)

lemma light_locals_phase: "lv_blinkPhase (light_locals p t i) = real i * 0.8 + hash (real i) * 6.28"
  by (simp add: light_locals_def Let_def)

lemma light_locals_speed: "lv_blinkSpeed (light_locals p t i) = 2.0 + hash (real i + 5.0) * 2.0"
  by (simp add: light_locals_def Let_def)

lemma half_sin_range: "0 \<le> 0.5 + 0.5 * sin (a::real) \<and> 0.5 + 0.5 * sin a \<le> 1"
  using sin_ge_minus_one [of a] sin_le_one [of a] by linarith

lemma light_locals_blink0:
  "lv_blink0 (light_locals p t i) =
     0.3 + 0.7 * (0.5 + 0.5 * sin (t * (2.0 + hash (real i + 5.0) * 2.0)
                                  + (real i * 0.8 + hash (real i) * 6.28))) ^ 2"
  using half_sin_range by (simp add: light_locals_def Let_def pow_2)

lemma blink0_range: "0.3 \<le> lv_blink0 (light_locals p t i) \<and> lv_blink0 (light_locals p t i) \<le> 1"
proof -
  define s where "s = 0.5 + 0.5 * sin (t * (2.0 + hash (real i + 5.0) * 2.0)
                                  + (real i * 0.8 + hash (real i) * 6.28))"
  have r: "0 \<le> s" "s \<le> 1" using half_sin_range by (simp_all add: s_def)
  then have "0 \<le> s ^ 2" "s ^ 2 \<le> 1" by (simp_all add: power_le_one)
  moreover have "lv_blink0 (light_locals p t i) = 0.3 + 0.7 * s ^ 2"
    unfolding s_def by (rule light_locals_blink0)
  ultimately show ?thesis by simp
qed

text \<open>
  Claim C3, as amended. For every light index and every time, the blink brightness before
  the side visibility is \<open>0.3 + 0.7 * (0.5 + 0.5 * sin (t * blinkSpeed + blinkPhase))\<^sup>2\<close>
  with \<open>blinkPhase = i * 0.8 + hash i * 6.28\<close> and \<open>blinkSpeed = 2.0 + hash (i + 5) * 2.0\<close>;
  it lies between 0.3 and 1.
\<close>

theorem blink_formula:
  "lv_blinkPhase (light_locals p t i) = real i * 0.8 + hash (real i) * 6.28 \<and>
   lv_blinkSpeed (light_locals p t i) = 2.0 + hash (real i + 5.0) * 2.0 \<and>
   lv_blink0 (light_locals p t i) =
     0.3 + 0.7 * (0.5 + 0.5 * sin (t * lv_blinkSpeed (light_locals p t i)
                                  + lv_blinkPhase (light_locals p t i))) ^ 2 \<and>
   0.3 \<le> lv_blink0 (light_locals p t i) \<and> lv_blink0 (light_locals p t i) \<le> 1"
  using blink0_range [of p t i] light_locals_blink0 [of p t i]
  by (simp only: light_locals_phase light_locals_speed)

text \<open>
  Claim C3 as stated fails at \<open>i = 0\<close>, \<open>t = 0\<close>: \<open>hash 0 = 0\<close>, so the sine is taken at 0;
  the shader's brightness is 0.475, the claimed \<open>0.3 + 0.7 * sin\<^sup>2\<close> is 0.3.
\<close>

theorem blink_sin_squared_counterexample:
  "lv_blink0 (light_locals (Vec2 0 0) 0 0) = 0.475 \<and>
   0.3 + 0.7 * (sin (0 * lv_blinkSpeed (light_locals (Vec2 0 0) 0 0)
                      + lv_blinkPhase (light_locals (Vec2 0 0) 0 0))) ^ 2 = 0.3 \<and>
   lv_blink0 (light_locals (Vec2 0 0) 0 0) \<noteq>
     0.3 + 0.7 * (sin (0 * lv_blinkSpeed (light_locals (Vec2 0 0) 0 0)
                      + lv_blinkPhase (light_locals (Vec2 0 0) 0 0))) ^ 2"
  by (simp add: light_locals_blink0 light_locals_phase hash_0 power2_eq_square)

text \<open>
  Claim C5. The blink phase, the blink speed and the blink brightness (before and after the
  side visibility) computed in an iteration of the light loop are the same at any two
  pixels for the same index and time; phase and speed do not depend on the time either.
  The shader has no input besides the pixel, the time and the resolution, and \<open>hash\<close> is a
  function of the index.
\<close>

theorem blink_independent_of_pixel:
  "lv_blinkPhase (light_locals p t i) = lv_blinkPhase (light_locals p' t' i) \<and>
   lv_blinkSpeed (light_locals p t i) = lv_blinkSpeed (light_locals p' t' i) \<and>
   lv_blink0 (light_locals p t i) = lv_blink0 (light_locals p' t i) \<and>
   lv_sideVisibility (light_locals p t i) = lv_sideVisibility (light_locals p' t i) \<and>
   lv_blink (light_locals p t i) = lv_blink (light_locals p' t i)"
  by (simp add: light_locals_def Let_def)

lemma length2_axis_y: "length2 (Vec2 0 b) = \<bar>b\<bar>"
  by (simp add: length2_def)

lemma length2_axis_x: "length2 (Vec2 a 0) = \<bar>a\<bar>"
  by (simp add: length2_def)

lemma vignette_Some: "vignette uv = Some (1 - hermite (clamp ((center_dist uv - 0.4) / 0.3) 0 1))"
  by (simp add: vignette_def smoothstep_def fdiv_def)

text \<open>
  Claim C6. The vignette factor is 1 at the exact center \<open>(0.5, 0.5)\<close>, is 0 at every
  coordinate at distance at least 0.7 from the center, and does not increase when the
  distance from the center grows.
\<close>

theorem vignette_profile:
  "vignette (Vec2 0.5 0.5) = Some 1 \<and>
   (0.7 \<le> center_dist uv \<longrightarrow> vignette uv = Some 0) \<and>
   (center_dist uv \<le> center_dist uv' \<longrightarrow>
      (\<exists>v v'. vignette uv = Some v \<and> vignette uv' = Some v' \<and> v' \<le> v))"
proof -
  have c: "center_dist (Vec2 0.5 0.5) = 0" by (simp add: center_dist_def length2_def sub2_def)
  have "smoothstep 0.4 0.7 (center_dist (Vec2 0.5 0.5)) = Some 0"
    unfolding c by (rule smoothstep_rising_below) simp_all
  then have 1: "vignette (Vec2 0.5 0.5) = Some 1"
    unfolding vignette_def by simp
  have 2: "vignette uv = Some 0" if "0.7 \<le> center_dist uv"
    using smoothstep_rising_above [of "0.4" "0.7" "center_dist uv"] that by (simp add: vignette_def)
  have 3: "\<exists>v v'. vignette uv = Some v \<and> vignette uv' = Some v' \<and> v' \<le> v"
    if h: "center_dist uv \<le> center_dist uv'"
  proof -
    obtain s s' where "smoothstep 0.4 0.7 (center_dist uv) = Some s"
      "smoothstep 0.4 0.7 (center_dist uv') = Some s'" "s \<le> s'"
      using smoothstep_rising_mono [of "0.4" "0.7" "center_dist uv" "center_dist uv'"] h by auto
    then show ?thesis by (simp add: vignette_def)
  qed
  show ?thesis using 1 2 3 by blast
qed

theorem vignette_profile_witness:
  "vignette (Vec2 0.5 1.2) = Some 0 \<and>
   (\<exists>v v'. vignette (Vec2 0.5 0.5) = Some v \<and> vignette (Vec2 0.5 1.2) = Some v' \<and> v' \<le> v)"
proof -
  have a: "center_dist (Vec2 0.5 1.2) = 0.7" by (simp add: center_dist_def length2_axis_y sub2_def)
  have b: "center_dist (Vec2 0.5 0.5) = 0" by (simp add: center_dist_def length2_def sub2_def)
  show ?thesis
    using vignette_profile [of "Vec2 0.5 1.2" "Vec2 0.5 1.2"]
      vignette_profile [of "Vec2 0.5 0.5" "Vec2 0.5 1.2"] a b by simp
qed

text \<open>
  Claim C7. The edge glow adds nothing to the colour when the accumulated alpha is at most
  0.1 or at least 0.95 (the bounds included), and for an alpha strictly between them it
  adds the nonzero tint \<open>(0, 0.27 * (1 - alpha), 0.15 * (1 - alpha))\<close>, whose green and blue
  components are strictly positive. The stage leaves alpha unchanged.
\<close>

theorem edge_glow_contribution:
  "(a \<le> 0.1 \<or> 0.95 \<le> a \<longrightarrow> glow_contribution (c, a) = Vec3 0 0 0) \<and>
   (0.1 < a \<and> a < 0.95 \<longrightarrow>
      glow_contribution (c, a) = Vec3 0 (0.27 * (1 - a)) (0.15 * (1 - a)) \<and>
      cr (glow_contribution (c, a)) = 0 \<and>
      0 < cg (glow_contribution (c, a)) \<and> 0 < cb (glow_contribution (c, a)) \<and>
      glow_contribution (c, a) \<noteq> Vec3 0 0 0) \<and>
   snd (edge_glow (c, a)) = a"
  by (auto simp: glow_contribution_def edge_glow_def Let_def sub3_def add3_def scale3_def)

theorem edge_glow_contribution_witness:
  "glow_contribution (Vec3 0 0 0, 0.1) = Vec3 0 0 0 \<and>
   glow_contribution (Vec3 0 0 0, 0.95) = Vec3 0 0 0 \<and>
   glow_contribution (Vec3 0 0 0, 0.5) = Vec3 0 0.135 0.075"
  using edge_glow_contribution [of "0.1" "Vec3 0 0 0"] edge_glow_contribution [of "0.95" "Vec3 0 0 0"]
    edge_glow_contribution [of "0.5" "Vec3 0 0 0"] by simp

subsection \<open>Coordinate setup, trunk and layers\<close>

lemma centered_resolution:
  "centered resolution uv = Some (Vec2 ((vx uv - 0.5) * (200 / 280)) (vy uv - 0.35))"
  by (simp add: centered_def resolution_def fdiv_def sub2_def)

lemma trunk_outside:
  "\<not> (vy p > trunkBottom \<and> vy p < trunkTop \<and> \<bar>vx p\<bar> < trunkWidth) \<Longrightarrow> trunk p t acc = Some acc"
  unfolding trunk_def by (rule if_not_P)

lemma trunk_inside:
  assumes "vy p > trunkBottom \<and> vy p < trunkTop \<and> \<bar>vx p\<bar> < trunkWidth"
  shows "\<exists>s. smoothstep trunkWidth (trunkWidth - 0.01) \<bar>vx p\<bar> = Some s \<and>
    trunk p t acc =
      Some (scale3 (Vec3 0.4 0.22 0.1) (0.7 + 0.3 * rotPhase t * (vx p / trunkWidth)), s)"
proof -
  have "trunkWidth - 0.01 \<noteq> trunkWidth" by simp
  then obtain s where s: "smoothstep trunkWidth (trunkWidth - 0.01) \<bar>vx p\<bar> = Some s"
    using smoothstep_Some by blast
  have "fdiv (vx p) trunkWidth = Some (vx p / trunkWidth)"
    by (simp add: fdiv_def trunkWidth_def)
  then have "trunk p t acc =
      Some (scale3 (Vec3 0.4 0.22 0.1) (0.7 + 0.3 * rotPhase t * (vx p / trunkWidth)), s)"
    unfolding trunk_def by (simp only: if_P [OF assms] s Option.bind.simps Let_def)
  then show ?thesis using s by blast
qed

lemma trunk_alpha:
  assumes "0 \<le> snd acc" "snd acc \<le> B" "1 \<le> B"
  shows "\<exists>acc'. trunk p t acc = Some acc' \<and> 0 \<le> snd acc' \<and> snd acc' \<le> B"
proof (cases "vy p > trunkBottom \<and> vy p < trunkTop \<and> \<bar>vx p\<bar> < trunkWidth")
  case True
  then obtain s where s: "smoothstep trunkWidth (trunkWidth - 0.01) \<bar>vx p\<bar> = Some s"
    "trunk p t acc =
      Some (scale3 (Vec3 0.4 0.22 0.1) (0.7 + 0.3 * rotPhase t * (vx p / trunkWidth)), s)"
    using trunk_inside by blast
  have "0 \<le> s \<and> s \<le> 1" using s(1) by (rule smoothstep_range)
  then show ?thesis using s(2) assms by simp
next
  case False
  then show ?thesis using assms by (simp add: trunk_outside)
qed


lemma layer_outside:
  assumes "lb \<noteq> lt" "\<not> (in_band lb lt p \<and> \<bar>vx p\<bar> < layerWidth_at lb lt w p)"
  shows "layer lb lt w p t acc = Some acc"
proof (cases "in_band lb lt p")
  case False
  then show ?thesis unfolding layer_def by (simp only: if_False)
next
  case True
  then have n: "\<not> \<bar>vx p\<bar> < w * (1 - (vy p - lb) / (lt - lb))"
    using assms(2) by (simp add: layerWidth_at_def)
  have d1: "fdiv (vy p - lb) (lt - lb) = Some ((vy p - lb) / (lt - lb))"
    using assms(1) by (simp add: fdiv_def)
  show ?thesis unfolding layer_def
    by (simp only: True n d1 Let_def if_True if_False Option.bind.simps)
qed

lemma layer_inside:
  assumes "lb \<noteq> lt" "in_band lb lt p" "\<bar>vx p\<bar> < layerWidth_at lb lt w p"
  shows "\<exists>e. smoothstep (layerWidth_at lb lt w p) (layerWidth_at lb lt w p - 0.015) \<bar>vx p\<bar> = Some e \<and>
    layer lb lt w p t acc =
      Some (add3 (mix3 (Vec3 0 0.18 0.1) (Vec3 0 0.45 0.25)
                   ((0.6 + 0.4 * (0.5 + 0.5 * rotPhase t * (vx p / max (layerWidth_at lb lt w p) 0.01)))
                     * (0.85 + 0.15 * ((vy p - lb) / (lt - lb)))))
                 (scale3 (scale3 (Vec3 0 0.15 0.08) (1 - \<bar>vx p\<bar> / layerWidth_at lb lt w p)) 0.5),
            max (snd acc) e)"
proof -
  define lw where "lw = layerWidth_at lb lt w p"
  have pos: "0 < lw" using assms(3) unfolding lw_def by linarith
  have "lw - 0.015 \<noteq> lw" by simp
  then obtain e where e: "smoothstep lw (lw - 0.015) \<bar>vx p\<bar> = Some e"
    using smoothstep_Some by blast
  have d1: "fdiv (vy p - lb) (lt - lb) = Some ((vy p - lb) / (lt - lb))"
    using assms(1) by (simp add: fdiv_def)
  have d2: "fdiv (vx p) (max lw 0.01) = Some (vx p / max lw 0.01)"
    by (simp add: fdiv_def max_def)
  have d3: "fdiv \<bar>vx p\<bar> lw = Some (\<bar>vx p\<bar> / lw)"
    using pos by (simp add: fdiv_def)
  have l: "w * (1 - (vy p - lb) / (lt - lb)) = lw" by (simp add: lw_def layerWidth_at_def)
  have "layer lb lt w p t acc =
      Some (add3 (mix3 (Vec3 0 0.18 0.1) (Vec3 0 0.45 0.25)
                   ((0.6 + 0.4 * (0.5 + 0.5 * rotPhase t * (vx p / max lw 0.01)))
                     * (0.85 + 0.15 * ((vy p - lb) / (lt - lb)))))
                 (scale3 (scale3 (Vec3 0 0.15 0.08) (1 - \<bar>vx p\<bar> / lw)) 0.5),
            max (snd acc) e)"
    unfolding layer_def
    by (simp only: assms(2) assms(3) [folded lw_def] d1 l d2 d3 e Let_def if_True
        Option.bind.simps)
  then show ?thesis using e unfolding lw_def by blast
qed

lemma layer_alpha:
  assumes "lb \<noteq> lt" "0 \<le> snd acc" "snd acc \<le> B" "1 \<le> B"
  shows "\<exists>acc'. layer lb lt w p t acc = Some acc' \<and> 0 \<le> snd acc' \<and> snd acc' \<le> B"
proof (cases "in_band lb lt p \<and> \<bar>vx p\<bar> < layerWidth_at lb lt w p")
  case True
  then obtain e c where e:
    "smoothstep (layerWidth_at lb lt w p) (layerWidth_at lb lt w p - 0.015) \<bar>vx p\<bar> = Some e"
    "layer lb lt w p t acc = Some (c, max (snd acc) e)"
    using layer_inside [OF assms(1), of p w t acc] by blast
  have "0 \<le> e \<and> e \<le> 1" using e(1) by (rule smoothstep_range)
  then show ?thesis using e(2) assms by simp
next
  case False
  then show ?thesis using assms by (simp add: layer_outside)
qed

subsection \<open>Lights\<close>

lemma unit_prod: "0 \<le> a \<Longrightarrow> a \<le> 1 \<Longrightarrow> 0 \<le> b \<Longrightarrow> b \<le> 1 \<Longrightarrow> 0 \<le> a * b \<and> a * b \<le> (1::real)"
  by (simp add: mult_le_one)

lemma sideVisibility_range:
  "0 \<le> lv_sideVisibility (light_locals p t i) \<and> lv_sideVisibility (light_locals p t i) \<le> 1"
proof -
  define x where "x = vx (lv_lightPos (light_locals p t i))"
  have "\<bar>sgn x * rotPhase t\<bar> \<le> 1"
    unfolding rotPhase_def abs_mult by (intro mult_le_one) (simp_all add: abs_sgn_eq)
  then have "- 1 \<le> sgn x * rotPhase t" "sgn x * rotPhase t \<le> 1" by linarith+
  moreover have "lv_sideVisibility (light_locals p t i) = 0.5 + 0.5 * (sgn x * rotPhase t)"
    by (simp add: light_locals_def Let_def x_def)
  ultimately show ?thesis by simp
qed

lemma light_locals_blink:
  "lv_blink (light_locals p t i) =
     lv_blink0 (light_locals p t i) * (0.3 + 0.7 * lv_sideVisibility (light_locals p t i))"
  by (simp add: light_locals_def Let_def)

lemma blink_range: "0 \<le> lv_blink (light_locals p t i) \<and> lv_blink (light_locals p t i) \<le> 1"
proof -
  have "0 \<le> 0.3 + 0.7 * lv_sideVisibility (light_locals p t i)"
    "0.3 + 0.7 * lv_sideVisibility (light_locals p t i) \<le> 1"
    using sideVisibility_range [of p t i] by simp_all
  moreover have "0 \<le> lv_blink0 (light_locals p t i)" "lv_blink0 (light_locals p t i) \<le> 1"
    using blink0_range [of p t i] by simp_all
  ultimately show ?thesis unfolding light_locals_blink by (intro unit_prod)
qed

lemma light_Some:
  "\<exists>core glow. smoothstep 0.025 0.005 (lv_d (light_locals p t i)) = Some core \<and>
     smoothstep 0.07 0.01 (lv_d (light_locals p t i)) = Some glow \<and>
     light p t i acc =
       Some (add3 (mix3 (fst acc) (lightColors ! (i - (i div 8) * 8))
                     (core * lv_blink (light_locals p t i)))
                (scale3 (lightColors ! (i - (i div 8) * 8))
                     (glow * lv_blink (light_locals p t i) * 0.5)),
             max (snd acc) (core * lv_blink (light_locals p t i)
                            + glow * lv_blink (light_locals p t i) * 0.5 * 0.5))"
proof -
  have "(0.005::real) \<noteq> 0.025" "(0.01::real) \<noteq> 0.07" by simp_all
  then obtain core glow where s: "smoothstep 0.025 0.005 (lv_d (light_locals p t i)) = Some core"
    "smoothstep 0.07 0.01 (lv_d (light_locals p t i)) = Some glow"
    using smoothstep_Some by blast
  show ?thesis unfolding light_def
    by (simp only: s Let_def Option.bind.simps) blast
qed

lemma light_alpha:
  assumes "0 \<le> snd acc" "snd acc \<le> B" "1.25 \<le> B"
  shows "\<exists>acc'. light p t i acc = Some acc' \<and> 0 \<le> snd acc' \<and> snd acc' \<le> B"
proof -
  define b where "b = lv_blink (light_locals p t i)"
  obtain core glow c where s: "smoothstep 0.025 0.005 (lv_d (light_locals p t i)) = Some core"
    "smoothstep 0.07 0.01 (lv_d (light_locals p t i)) = Some glow"
    "light p t i acc = Some (c, max (snd acc) (core * b + glow * b * 0.5 * 0.5))"
    using light_Some [of p t i acc] unfolding b_def by blast
  have r: "0 \<le> core \<and> core \<le> 1" "0 \<le> glow \<and> glow \<le> 1"
    using s(1,2) smoothstep_range by blast+
  have br: "0 \<le> b \<and> b \<le> 1" unfolding b_def by (rule blink_range)
  have "0 \<le> core * b \<and> core * b \<le> 1" "0 \<le> glow * b \<and> glow * b \<le> 1"
    using r br by (simp_all add: unit_prod)
  then have "0 \<le> core * b + glow * b * 0.5 * 0.5" "core * b + glow * b * 0.5 * 0.5 \<le> 1.25"
    by simp_all
  then show ?thesis using s(3) assms by simp
qed

lemma mix3_0: "mix3 c k 0 = c"
  by (cases c) (simp add: mix3_def mix_def)

lemma add3_scale3_0: "add3 c (scale3 k 0) = c"
  by (cases c) (simp add: add3_def scale3_def)

lemma light_far:
  assumes "0.07 \<le> lv_d (light_locals p t i)" "0 \<le> snd acc"
  shows "light p t i acc = Some acc"
proof -
  have c: "smoothstep 0.025 0.005 (lv_d (light_locals p t i)) = Some 0"
    using assms(1) by (intro smoothstep_falling_out) simp_all
  have g: "smoothstep 0.07 0.01 (lv_d (light_locals p t i)) = Some 0"
    using assms(1) by (intro smoothstep_falling_out) simp_all
  obtain core glow where s: "smoothstep 0.025 0.005 (lv_d (light_locals p t i)) = Some core"
     "smoothstep 0.07 0.01 (lv_d (light_locals p t i)) = Some glow"
     "light p t i acc =
       Some (add3 (mix3 (fst acc) (lightColors ! (i - (i div 8) * 8))
                     (core * lv_blink (light_locals p t i)))
                (scale3 (lightColors ! (i - (i div 8) * 8))
                     (glow * lv_blink (light_locals p t i) * 0.5)),
             max (snd acc) (core * lv_blink (light_locals p t i)
                            + glow * lv_blink (light_locals p t i) * 0.5 * 0.5))"
    using light_Some [of p t i acc] by blast
  have "core = 0" "glow = 0" using s(1,2) c g by simp_all
  then show ?thesis using s(3) assms(2) by (simp add: mix3_0 add3_scale3_0)
qed

lemma lights_alpha:
  assumes "1.25 \<le> B"
  shows "0 \<le> snd acc \<Longrightarrow> snd acc \<le> B \<Longrightarrow>
    \<exists>acc'. lights p t i n acc = Some acc' \<and> 0 \<le> snd acc' \<and> snd acc' \<le> B"
proof (induction n arbitrary: i acc)
  case 0
  then show ?case by simp
next
  case (Suc n)
  obtain acc1 where a: "light p t i acc = Some acc1" "0 \<le> snd acc1" "snd acc1 \<le> B"
    using light_alpha [OF Suc.prems assms] by blast
  show ?case using Suc.IH [OF a(2,3)] a(1) by simp
qed

lemma lights_far:
  "(\<forall>k<n. 0.07 \<le> lv_d (light_locals p t (i + k))) \<Longrightarrow> 0 \<le> snd acc \<Longrightarrow>
     lights p t i n acc = Some acc"
proof (induction n arbitrary: i)
  case 0
  then show ?case by simp
next
  case (Suc n)
  have "0.07 \<le> lv_d (light_locals p t (i + 0))" using Suc.prems(1) by blast
  then have a: "light p t i acc = Some acc" using Suc.prems(2) by (simp add: light_far)
  have "\<forall>k<n. 0.07 \<le> lv_d (light_locals p t (Suc i + k))"
    using Suc.prems(1) by (metis Suc_less_eq add_Suc_shift)
  then show ?case using Suc.IH [of "Suc i"] Suc.prems(2) a by simp
qed

subsection \<open>Star\<close>

lemma starPulse_range: "0.6 \<le> starPulse t \<and> starPulse t \<le> 1"
  using sin_ge_minus_one [of "t * 3.0"] sin_le_one [of "t * 3.0"]
  unfolding starPulse_def by linarith

lemma starShape_range: "0.015 \<le> starShape p t \<and> starShape p t \<le> 0.04"
proof -
  define q where "q = pow \<bar>sin (starAngle p * 2.5 + 0.5)\<bar> 2"
  have "0 \<le> q \<and> q \<le> 1" unfolding q_def by (rule pow_2_range) simp_all
  then have a: "0.025 \<le> 0.025 + 0.015 * q" "0.025 + 0.015 * q \<le> 0.04" by simp_all
  have s: "starShape p t = (0.025 + 0.015 * q) * starPulse t"
    by (simp add: starShape_def q_def)
  have "0.025 * 0.6 \<le> (0.025 + 0.015 * q) * starPulse t"
    using a starPulse_range [of t] by (intro mult_mono) simp_all
  moreover have "(0.025 + 0.015 * q) * starPulse t \<le> 0.04 * 1"
    using a starPulse_range [of t] by (intro mult_mono) simp_all
  ultimately show ?thesis unfolding s by simp
qed

lemma rays_range: "0 \<le> rays p t \<and> rays p t \<le> 1"
proof -
  have "0 \<le> pow \<bar>sin (starAngle p * 5.0 + t * 1.2)\<bar> 4 \<and> pow \<bar>sin (starAngle p * 5.0 + t * 1.2)\<bar> 4 \<le> 1"
    by (rule pow_4_range) simp_all
  then show ?thesis by (simp add: rays_def)
qed

lemma star_Some:
  "\<exists>body glow ray. smoothstep (starShape p t) (starShape p t * 0.3) (starDist p) = Some body \<and>
     smoothstep 0.1 0.0 (starDist p) = Some glow \<and>
     smoothstep 0.12 0.02 (starDist p) = Some ray \<and>
     star p t acc =
       Some (mix3 (mix3 (fst acc) (Vec3 1.0 0.85 0.1)
                     (glow * 0.6 * starPulse t + ray * rays p t * 0.4 * starPulse t))
                (mix3 (Vec3 1.0 0.85 0.1) (Vec3 1.0 1.0 0.95) 0.7) body,
             max (snd acc) (body + glow * 0.6 * starPulse t * 0.8
                            + ray * rays p t * 0.4 * starPulse t * 0.5))"
proof -
  have "starShape p t * 0.3 \<noteq> starShape p t" using starShape_range [of p t] by simp
  then obtain body where b: "smoothstep (starShape p t) (starShape p t * 0.3) (starDist p) = Some body"
    using smoothstep_Some by blast
  have "(0.0::real) \<noteq> 0.1" "(0.02::real) \<noteq> 0.12" by simp_all
  then obtain glow ray where s: "smoothstep 0.1 0.0 (starDist p) = Some glow"
     "smoothstep 0.12 0.02 (starDist p) = Some ray"
    using smoothstep_Some by blast
  show ?thesis unfolding star_def
    by (simp only: b s Let_def Option.bind.simps) blast
qed

lemma star_alpha:
  assumes "0 \<le> snd acc" "snd acc \<le> B" "1.68 \<le> B"
  shows "\<exists>acc'. star p t acc = Some acc' \<and> 0 \<le> snd acc' \<and> snd acc' \<le> B"
proof -
  obtain body glow ray c where s:
    "smoothstep (starShape p t) (starShape p t * 0.3) (starDist p) = Some body"
    "smoothstep 0.1 0.0 (starDist p) = Some glow"
    "smoothstep 0.12 0.02 (starDist p) = Some ray"
    "star p t acc = Some (c, max (snd acc) (body + glow * 0.6 * starPulse t * 0.8
                            + ray * rays p t * 0.4 * starPulse t * 0.5))"
    using star_Some [of p t acc] by blast
  have r: "0 \<le> body \<and> body \<le> 1" "0 \<le> glow \<and> glow \<le> 1" "0 \<le> ray \<and> ray \<le> 1"
    using s(1,2,3) smoothstep_range by blast+
  have pr: "0 \<le> starPulse t \<and> starPulse t \<le> 1" using starPulse_range [of t] by simp
  define G where "G = glow * starPulse t"
  define Y where "Y = ray * rays p t * starPulse t"
  have g: "0 \<le> G \<and> G \<le> 1"
    unfolding G_def using r pr by (simp add: unit_prod)
  have "0 \<le> ray * rays p t \<and> ray * rays p t \<le> 1"
    using r rays_range [of p t] by (simp add: unit_prod)
  then have y: "0 \<le> Y \<and> Y \<le> 1"
    unfolding Y_def using pr by (simp add: unit_prod)
  have e: "body + glow * 0.6 * starPulse t * 0.8 + ray * rays p t * 0.4 * starPulse t * 0.5
      = body + 0.48 * G + 0.2 * Y"
    unfolding G_def Y_def by simp
  have "0 \<le> body + 0.48 * G + 0.2 * Y" "body + 0.48 * G + 0.2 * Y \<le> 1.68"
    using r g y by simp_all
  then show ?thesis using s(4) assms unfolding e by simp
qed

lemma star_far:
  assumes "0.12 \<le> starDist p" "0 \<le> snd acc"
  shows "star p t acc = Some acc"
proof -
  have sh: "0.015 \<le> starShape p t" "starShape p t \<le> 0.04" using starShape_range [of p t] by simp_all
  have b: "smoothstep (starShape p t) (starShape p t * 0.3) (starDist p) = Some 0"
    using assms(1) sh by (intro smoothstep_falling_out) simp_all
  have g: "smoothstep 0.1 0.0 (starDist p) = Some 0"
    using assms(1) by (intro smoothstep_falling_out) simp_all
  have y: "smoothstep 0.12 0.02 (starDist p) = Some 0"
    using assms(1) by (intro smoothstep_falling_out) simp_all
  have "star p t acc = Some (fst acc, max (snd acc) 0)"
    unfolding star_def by (simp only: b g y Let_def Option.bind.simps) (simp add: mix3_0)
  then show ?thesis using assms(2) by simp
qed

lemma length2_le_sum: "length2 v \<le> \<bar>vx v\<bar> + \<bar>vy v\<bar>"
  using sqrt_sum_squares_le_sum_abs [of "vx v" "vy v"]
  by (simp add: length2_def power2_eq_square)

lemma all_less_12:
  "(\<forall>k<12::nat. P k) \<longleftrightarrow>
     (P 0 \<and> P 1 \<and> P 2 \<and> P 3 \<and> P 4 \<and> P 5 \<and> P 6 \<and> P 7 \<and> P 8 \<and> P 9 \<and> P 10 \<and> P 11)"
  by (simp add: eval_nat_numeral All_less_Suc conj_ac)

lemma light_d_ge_y: "\<bar>vy p - vy (lightPositions ! i)\<bar> \<le> lv_d (light_locals p t i)"
proof -
  define q where "q = lv_lightPos (light_locals p t i)"
  have "lv_d (light_locals p t i) = length2 (sub2 p q)"
    by (simp add: light_locals_def Let_def q_def)
  moreover have "vy q = vy (lightPositions ! i)"
    by (simp add: light_locals_def Let_def q_def)
  ultimately show ?thesis using length2_ge_y [of "sub2 p q"] by (simp add: sub2_def)
qed

lemma light_d_ge_x: "\<bar>vx p - vx (lightPositions ! i)\<bar> - 0.015 \<le> lv_d (light_locals p t i)"
proof -
  define q where "q = lv_lightPos (light_locals p t i)"
  define j where "j = sin (rotAngle t + real i * 0.5)"
  have "lv_d (light_locals p t i) = length2 (sub2 p q)"
    by (simp add: light_locals_def Let_def q_def)
  moreover have "vx q = vx (lightPositions ! i) + j * 0.015"
    by (simp add: light_locals_def Let_def q_def j_def)
  moreover have "- 1 \<le> j" "j \<le> 1" by (simp_all add: j_def)
  ultimately show ?thesis using length2_ge_x [of "sub2 p q"] by (simp add: sub2_def)
qed

lemma light_far_y:
  "0.07 \<le> \<bar>vy p - vy (lightPositions ! i)\<bar> \<Longrightarrow> 0.07 \<le> lv_d (light_locals p t i)"
  using light_d_ge_y [of p i t] by simp

lemma light_far_x:
  "0.085 \<le> \<bar>vx p - vx (lightPositions ! i)\<bar> \<Longrightarrow> 0.07 \<le> lv_d (light_locals p t i)"
  using light_d_ge_x [of p i t] by simp

lemma lights_away:
  assumes "\<forall>k<12. 0.07 \<le> \<bar>vy p - vy (lightPositions ! k)\<bar> \<or> 0.085 \<le> \<bar>vx p - vx (lightPositions ! k)\<bar>"
    and "0 \<le> snd acc"
  shows "lights p t 0 12 acc = Some acc"
proof -
  have "\<forall>k<12. 0.07 \<le> lv_d (light_locals p t (0 + k))"
    using assms(1) light_far_x light_far_y by auto
  then show ?thesis using assms(2) by (rule lights_far)
qed

lemma star_away:
  assumes "0.12 \<le> \<bar>vy p - 0.38\<bar>" "0 \<le> snd acc"
  shows "star p t acc = Some acc"
proof -
  have "\<bar>vy (sub2 p starPos)\<bar> \<le> starDist p" unfolding starDist_def by (rule length2_ge_y)
  then have "0.12 \<le> starDist p" using assms(1) by (simp add: sub2_def starPos_def)
  then show ?thesis using assms(2) by (rule star_far)
qed

lemmas trunk_consts = trunkTop_def trunkBottom_def trunkHeight_def trunkWidth_def

lemma vignette_range: "\<exists>v. vignette uv = Some v \<and> 0 \<le> v \<and> v \<le> 1"
proof -
  have "(0.7::real) \<noteq> 0.4" by simp
  then obtain s where s: "smoothstep 0.4 0.7 (center_dist uv) = Some s"
    using smoothstep_Some by blast
  then have "0 \<le> s \<and> s \<le> 1" by (rule smoothstep_range)
  then show ?thesis using s by (simp add: vignette_def)
qed

lemma shapes_alpha: "\<exists>acc. shapes p t = Some acc \<and> 0 \<le> snd acc \<and> snd acc \<le> 1.68"
proof -
  have b: "(1::real) \<le> 1.68" "(1.25::real) \<le> 1.68" "(1.68::real) \<le> 1.68" by simp_all
  have n: "layer1Bottom \<noteq> layer1Top" "layer2Bottom \<noteq> layer2Top" "layer3Bottom \<noteq> layer3Top"
    by (simp_all add: layer_consts)
  have "0 \<le> snd (Vec3 0 0 0, 0::real)" "snd (Vec3 0 0 0, 0::real) \<le> 1.68" by simp_all
  then obtain a1 where a1: "trunk p t (Vec3 0 0 0, 0) = Some a1" "0 \<le> snd a1" "snd a1 \<le> 1.68"
    using trunk_alpha [OF _ _ b(1)] by blast
  obtain a2 where a2: "layer layer1Bottom layer1Top layer1Width p t a1 = Some a2"
    "0 \<le> snd a2" "snd a2 \<le> 1.68"
    using layer_alpha [OF n(1) a1(2,3) b(1)] by blast
  obtain a3 where a3: "layer layer2Bottom layer2Top layer2Width p t a2 = Some a3"
    "0 \<le> snd a3" "snd a3 \<le> 1.68"
    using layer_alpha [OF n(2) a2(2,3) b(1)] by blast
  obtain a4 where a4: "layer layer3Bottom layer3Top layer3Width p t a3 = Some a4"
    "0 \<le> snd a4" "snd a4 \<le> 1.68"
    using layer_alpha [OF n(3) a3(2,3) b(1)] by blast
  obtain a5 where a5: "lights p t 0 12 a4 = Some a5" "0 \<le> snd a5" "snd a5 \<le> 1.68"
    using lights_alpha [OF b(2) a4(2,3)] by blast
  obtain a6 where a6: "star p t a5 = Some a6" "0 \<le> snd a6" "snd a6 \<le> 1.68"
    using star_alpha [OF a5(2,3) b(3)] by blast
  have "shapes p t = Some a6"
    unfolding shapes_def by (simp only: a1 a2 a3 a4 a5 a6 Option.bind.simps)
  then show ?thesis using a6 by blast
qed

lemma snd_edge_glow: "snd (edge_glow acc) = snd acc"
  by (simp add: edge_glow_def Let_def)

lemma accumulated_alpha:
  "\<exists>acc. accumulated resolution t uv = Some acc \<and> 0 \<le> snd acc \<and> snd acc \<le> 1.68"
proof -
  obtain acc where a: "shapes (Vec2 ((vx uv - 0.5) * (200 / 280)) (vy uv - 0.35)) t = Some acc"
    "0 \<le> snd acc" "snd acc \<le> 1.68"
    using shapes_alpha by blast
  have "accumulated resolution t uv = Some (edge_glow acc)"
    unfolding accumulated_def by (simp only: centered_resolution a(1) Option.bind.simps)
  then show ?thesis using a(2,3) by (simp add: snd_edge_glow)
qed

lemma shapes_steps:
  assumes "trunk p t (Vec3 0 0 0, 0) = Some a1"
    "layer layer1Bottom layer1Top layer1Width p t a1 = Some a2"
    "layer layer2Bottom layer2Top layer2Width p t a2 = Some a3"
    "layer layer3Bottom layer3Top layer3Width p t a3 = Some a4"
    "lights p t 0 12 a4 = Some a5"
    "star p t a5 = Some a6"
  shows "shapes p t = Some a6"
  unfolding shapes_def by (simp only: assms Option.bind.simps)

lemma layer_consts_ne:
  "layer1Bottom \<noteq> layer1Top" "layer2Bottom \<noteq> layer2Top" "layer3Bottom \<noteq> layer3Top"
  by (simp_all add: layer_consts)

lemma rotPhase_0: "rotPhase 0 = 0"
  by (simp add: rotPhase_def rotAngle_def)

text \<open>Pixel (0.5, 0.20): p = (0, -0.15), inside layer 1 only.\<close>

lemma shapes_foliage_pixel:
  "shapes (Vec2 0 (- 0.15)) 0 = Some (Vec3 0 (31431 / 70000) (3469 / 14000), 1)"
proof -
  define p where "p = Vec2 0 (- 0.15)"
  have p: "vx p = 0" "vy p = - 0.15" by (simp_all add: p_def)
  have t: "trunk p 0 (Vec3 0 0 0, 0) = Some (Vec3 0 0 0, 0)"
    by (rule trunk_outside) (simp add: p trunk_consts)
  have lw: "layerWidth_at layer1Bottom layer1Top layer1Width p = 247 / 1400"
    by (simp add: layerWidth_at_def p layer_consts)
  have i1: "in_band layer1Bottom layer1Top p" by (simp add: in_band_def p layer_consts)
  have i2: "\<bar>vx p\<bar> < layerWidth_at layer1Bottom layer1Top layer1Width p" by (simp add: lw p)
  obtain e where e:
    "smoothstep (layerWidth_at layer1Bottom layer1Top layer1Width p)
       (layerWidth_at layer1Bottom layer1Top layer1Width p - 0.015) \<bar>vx p\<bar> = Some e"
    "layer layer1Bottom layer1Top layer1Width p 0 (Vec3 0 0 0, 0) =
      Some (add3 (mix3 (Vec3 0 0.18 0.1) (Vec3 0 0.45 0.25)
                   ((0.6 + 0.4 * (0.5 + 0.5 * rotPhase 0
                        * (vx p / max (layerWidth_at layer1Bottom layer1Top layer1Width p) 0.01)))
                     * (0.85 + 0.15 * ((vy p - layer1Bottom) / (layer1Top - layer1Bottom)))))
                 (scale3 (scale3 (Vec3 0 0.15 0.08)
                    (1 - \<bar>vx p\<bar> / layerWidth_at layer1Bottom layer1Top layer1Width p)) 0.5),
            max (snd (Vec3 0 0 0, 0::real)) e)"
    using layer_inside [OF layer_consts_ne(1) i1 i2, of 0 "(Vec3 0 0 0, 0)"] by blast
  have "smoothstep (247 / 1400) (247 / 1400 - 0.015) \<bar>vx p\<bar> = Some 1"
    by (rule smoothstep_falling_in) (simp_all add: p)
  then have e1: "e = 1" using e(1) by (simp add: lw)
  have l1: "layer layer1Bottom layer1Top layer1Width p 0 (Vec3 0 0 0, 0) =
      Some (Vec3 0 (31431 / 70000) (3469 / 14000), 1)"
    unfolding e(2) e1
    by (simp add: p rotPhase_0 layer_consts add3_def mix3_def mix_def scale3_def)
  have l2: "layer layer2Bottom layer2Top layer2Width p 0 (Vec3 0 (31431 / 70000) (3469 / 14000), 1)
      = Some (Vec3 0 (31431 / 70000) (3469 / 14000), 1)"
    by (rule layer_outside [OF layer_consts_ne(2)]) (simp add: in_band_def p layer_consts)
  have l3: "layer layer3Bottom layer3Top layer3Width p 0 (Vec3 0 (31431 / 70000) (3469 / 14000), 1)
      = Some (Vec3 0 (31431 / 70000) (3469 / 14000), 1)"
    by (rule layer_outside [OF layer_consts_ne(3)]) (simp add: in_band_def p layer_consts)
  have li: "lights p 0 0 12 (Vec3 0 (31431 / 70000) (3469 / 14000), 1)
      = Some (Vec3 0 (31431 / 70000) (3469 / 14000), 1)"
    by (rule lights_away) (simp_all add: all_less_12 lightPositions_def p)
  have st: "star p 0 (Vec3 0 (31431 / 70000) (3469 / 14000), 1)
      = Some (Vec3 0 (31431 / 70000) (3469 / 14000), 1)"
    by (rule star_away) (simp_all add: p)
  show ?thesis using shapes_steps [OF t l1 l2 l3 li st] by (simp add: p_def)
qed

text \<open>Pixel (0.02, 0.02): p = (-12/35, -0.33), outside every shape.\<close>

lemma shapes_background_pixel:
  "shapes (Vec2 (- (12 / 35)) (- 0.33)) 0 = Some (Vec3 0 0 0, 0)"
proof -
  define p where "p = Vec2 (- (12 / 35)) (- 0.33)"
  have p: "vx p = - (12 / 35)" "vy p = - 0.33" by (simp_all add: p_def)
  have t: "trunk p 0 (Vec3 0 0 0, 0) = Some (Vec3 0 0 0, 0)"
    by (rule trunk_outside) (simp add: p trunk_consts)
  have l1: "layer layer1Bottom layer1Top layer1Width p 0 (Vec3 0 0 0, 0) = Some (Vec3 0 0 0, 0)"
    by (rule layer_outside [OF layer_consts_ne(1)]) (simp add: in_band_def p layer_consts)
  have l2: "layer layer2Bottom layer2Top layer2Width p 0 (Vec3 0 0 0, 0) = Some (Vec3 0 0 0, 0)"
    by (rule layer_outside [OF layer_consts_ne(2)]) (simp add: in_band_def p layer_consts)
  have l3: "layer layer3Bottom layer3Top layer3Width p 0 (Vec3 0 0 0, 0) = Some (Vec3 0 0 0, 0)"
    by (rule layer_outside [OF layer_consts_ne(3)]) (simp add: in_band_def p layer_consts)
  have li: "lights p 0 0 12 (Vec3 0 0 0, 0) = Some (Vec3 0 0 0, 0)"
    by (rule lights_away) (simp_all add: all_less_12 lightPositions_def p)
  have st: "star p 0 (Vec3 0 0 0, 0) = Some (Vec3 0 0 0, 0)"
    by (rule star_away) (simp_all add: p)
  show ?thesis using shapes_steps [OF t l1 l2 l3 li st] by (simp add: p_def)
qed

text \<open>Pixel (0.5, 0.08): p = (0, -0.27), inside the trunk, below layer 1.\<close>

lemma shapes_trunk_pixel:
  "shapes (Vec2 0 (- 0.27)) 0 = Some (Vec3 0.28 0.154 0.07, 1)"
proof -
  define p where "p = Vec2 0 (- 0.27)"
  have p: "vx p = 0" "vy p = - 0.27" by (simp_all add: p_def)
  have c: "vy p > trunkBottom \<and> vy p < trunkTop \<and> \<bar>vx p\<bar> < trunkWidth"
    by (simp add: p trunk_consts)
  obtain s where s: "smoothstep trunkWidth (trunkWidth - 0.01) \<bar>vx p\<bar> = Some s"
    "trunk p 0 (Vec3 0 0 0, 0) =
      Some (scale3 (Vec3 0.4 0.22 0.1) (0.7 + 0.3 * rotPhase 0 * (vx p / trunkWidth)), s)"
    using trunk_inside [OF c] by blast
  have "smoothstep trunkWidth (trunkWidth - 0.01) \<bar>vx p\<bar> = Some 1"
    by (rule smoothstep_falling_in) (simp_all add: p trunk_consts)
  then have s1: "s = 1" using s(1) by simp
  have t: "trunk p 0 (Vec3 0 0 0, 0) = Some (Vec3 0.28 0.154 0.07, 1)"
    unfolding s(2) s1 by (simp add: p rotPhase_0 scale3_def)
  have l1: "layer layer1Bottom layer1Top layer1Width p 0 (Vec3 0.28 0.154 0.07, 1)
      = Some (Vec3 0.28 0.154 0.07, 1)"
    by (rule layer_outside [OF layer_consts_ne(1)]) (simp add: in_band_def p layer_consts)
  have l2: "layer layer2Bottom layer2Top layer2Width p 0 (Vec3 0.28 0.154 0.07, 1)
      = Some (Vec3 0.28 0.154 0.07, 1)"
    by (rule layer_outside [OF layer_consts_ne(2)]) (simp add: in_band_def p layer_consts)
  have l3: "layer layer3Bottom layer3Top layer3Width p 0 (Vec3 0.28 0.154 0.07, 1)
      = Some (Vec3 0.28 0.154 0.07, 1)"
    by (rule layer_outside [OF layer_consts_ne(3)]) (simp add: in_band_def p layer_consts)
  have li: "lights p 0 0 12 (Vec3 0.28 0.154 0.07, 1) = Some (Vec3 0.28 0.154 0.07, 1)"
    by (rule lights_away) (simp_all add: all_less_12 lightPositions_def p)
  have st: "star p 0 (Vec3 0.28 0.154 0.07, 1) = Some (Vec3 0.28 0.154 0.07, 1)"
    by (rule star_away) (simp_all add: p)
  show ?thesis using shapes_steps [OF t l1 l2 l3 li st] by (simp add: p_def)
qed

text \<open>From the shapes to the shader's result.\<close>

lemma sceneShader_steps:
  assumes "centered res uv = Some p" "shapes p t = Some acc" "vignette uv = Some v"
  shows "accumulated res t uv = Some (edge_glow acc)"
    and "sceneShader res t uv = Some (fst (edge_glow acc), snd acc * v)"
proof -
  show a: "accumulated res t uv = Some (edge_glow acc)"
    unfolding accumulated_def by (simp only: assms Option.bind.simps)
  show "sceneShader res t uv = Some (fst (edge_glow acc), snd acc * v)"
    unfolding sceneShader_def
    by (cases "edge_glow acc") (use snd_edge_glow [of acc] in \<open>simp add: a assms(3)\<close>)
qed

lemma vignette_near: "center_dist uv \<le> 0.4 \<Longrightarrow> vignette uv = Some 1"
  using smoothstep_rising_below [of "0.4" "0.7" "center_dist uv"] by (simp add: vignette_def)

lemma foliage_pixel:
  "sceneShader resolution 0 (Vec2 0.5 0.20) = Some (Vec3 0 (31431 / 70000) (3469 / 14000), 1)"
proof -
  have c: "centered resolution (Vec2 0.5 0.20) = Some (Vec2 0 (- 0.15))"
    by (simp add: centered_resolution)
  have "center_dist (Vec2 0.5 0.20) = 0.3"
    by (simp add: center_dist_def sub2_def length2_axis_y)
  then have v: "vignette (Vec2 0.5 0.20) = Some 1" by (simp add: vignette_near)
  show ?thesis
    using sceneShader_steps(2) [OF c shapes_foliage_pixel v] by (simp add: edge_glow_def)
qed

lemma trunk_pixel:
  "sceneShader resolution 0 (Vec2 0.5 0.08) = Some (Vec3 0.28 0.154 0.07, 3332 / 3375)"
proof -
  have c: "centered resolution (Vec2 0.5 0.08) = Some (Vec2 0 (- 0.27))"
    by (simp add: centered_resolution)
  have d: "center_dist (Vec2 0.5 0.08) = 0.42"
    by (simp add: center_dist_def sub2_def length2_axis_y)
  have v: "vignette (Vec2 0.5 0.08) = Some (3332 / 3375)"
    unfolding vignette_Some d by (simp add: clamp_def hermite_def)
  show ?thesis
    using sceneShader_steps(2) [OF c shapes_trunk_pixel v] by (simp add: edge_glow_def)
qed

lemma background_pixel:
  "accumulated resolution 0 (Vec2 0.02 0.02) = Some (Vec3 0 0 0, 0)"
proof -
  have c: "centered resolution (Vec2 0.02 0.02) = Some (Vec2 (- (12 / 35)) (- 0.33))"
    by (simp add: centered_resolution)
  obtain v where v: "vignette (Vec2 0.02 0.02) = Some v" using vignette_range by blast
  show ?thesis
    using sceneShader_steps(1) [OF c shapes_background_pixel v] by (simp add: edge_glow_def)
qed

text \<open>
  The centre of pixel (100, 204) of the 200 x 280 surface: uv = (201/400, 409/560),
  p = (1/560, 213/560), next to the star anchor (0, 0.38).
\<close>

lemma starPulse_0: "starPulse 0 = 0.8"
  by (simp add: starPulse_def)

lemma star_pixel_dist: "starDist (Vec2 (1 / 560) (213 / 560)) \<le> 0.0025"
proof -
  have "starDist (Vec2 (1 / 560) (213 / 560))
      \<le> \<bar>vx (sub2 (Vec2 (1 / 560) (213 / 560)) starPos)\<bar>
        + \<bar>vy (sub2 (Vec2 (1 / 560) (213 / 560)) starPos)\<bar>"
    unfolding starDist_def by (rule length2_le_sum)
  then show ?thesis by (simp add: sub2_def starPos_def)
qed

lemma shapes_star_pixel:
  "\<exists>c a. shapes (Vec2 (1 / 560) (213 / 560)) 0 = Some (c, a) \<and> 1.38 < a"
proof -
  define p where "p = Vec2 (1 / 560) (213 / 560)"
  have p: "vx p = 1 / 560" "vy p = 213 / 560" by (simp_all add: p_def)
  have d: "starDist p \<le> 0.0025" unfolding p_def by (rule star_pixel_dist)
  have t: "trunk p 0 (Vec3 0 0 0, 0) = Some (Vec3 0 0 0, 0)"
    by (rule trunk_outside) (simp add: p trunk_consts)
  have l1: "layer layer1Bottom layer1Top layer1Width p 0 (Vec3 0 0 0, 0) = Some (Vec3 0 0 0, 0)"
    by (rule layer_outside [OF layer_consts_ne(1)]) (simp add: in_band_def p layer_consts)
  have l2: "layer layer2Bottom layer2Top layer2Width p 0 (Vec3 0 0 0, 0) = Some (Vec3 0 0 0, 0)"
    by (rule layer_outside [OF layer_consts_ne(2)]) (simp add: in_band_def p layer_consts)
  have l3: "layer layer3Bottom layer3Top layer3Width p 0 (Vec3 0 0 0, 0) = Some (Vec3 0 0 0, 0)"
    by (rule layer_outside [OF layer_consts_ne(3)]) (simp add: in_band_def p layer_consts)
  have li: "lights p 0 0 12 (Vec3 0 0 0, 0) = Some (Vec3 0 0 0, 0)"
    by (rule lights_away) (simp_all add: all_less_12 lightPositions_def p)
  obtain body glow ray c where s:
    "smoothstep (starShape p 0) (starShape p 0 * 0.3) (starDist p) = Some body"
    "smoothstep 0.1 0.0 (starDist p) = Some glow"
    "smoothstep 0.12 0.02 (starDist p) = Some ray"
    "star p 0 (Vec3 0 0 0, 0) = Some (c, max (snd (Vec3 0 0 0, 0::real))
        (body + glow * 0.6 * starPulse 0 * 0.8 + ray * rays p 0 * 0.4 * starPulse 0 * 0.5))"
    using star_Some [of p 0 "(Vec3 0 0 0, 0)"] by blast
  have sh: "0.015 \<le> starShape p 0" using starShape_range [of p 0] by simp
  have "smoothstep (starShape p 0) (starShape p 0 * 0.3) (starDist p) = Some 1"
    using sh d by (intro smoothstep_falling_in) simp_all
  then have b1: "body = 1" using s(1) by simp
  have g: "0.998 \<le> glow"
  proof -
    have "glow = hermite (clamp ((starDist p - 0.1) / (0.0 - 0.1)) 0 1)"
      using s(2) smoothstep_Some [of "0.0" "0.1" "starDist p"] by simp
    moreover have "0.975 \<le> (starDist p - 0.1) / (0.0 - 0.1)" using d by simp
    then have "clamp 0.975 0 1 \<le> clamp ((starDist p - 0.1) / (0.0 - 0.1)) 0 1"
      by (rule clamp_mono)
    then have "hermite (clamp 0.975 0 1) \<le> hermite (clamp ((starDist p - 0.1) / (0.0 - 0.1)) 0 1)"
      by (intro hermite_mono clamp_range)
    moreover have "0.998 \<le> hermite (clamp 0.975 0 1)" by (simp add: clamp_def hermite_def)
    ultimately show ?thesis by linarith
  qed
  have r: "0 \<le> ray \<and> ray \<le> 1" using s(3) by (rule smoothstep_range)
  then have y: "0 \<le> ray * rays p 0" using rays_range [of p 0] by simp
  define Y where "Y = ray * rays p 0"
  have e: "body + glow * 0.6 * starPulse 0 * 0.8 + ray * rays p 0 * 0.4 * starPulse 0 * 0.5
      = 1 + 0.384 * glow + 0.16 * Y"
    unfolding Y_def b1 starPulse_0 by simp
  have "1.38 < 1 + 0.384 * glow + 0.16 * Y" using g y unfolding Y_def [symmetric] by simp
  then have a: "1.38 < max (snd (Vec3 0 0 0, 0::real))
        (body + glow * 0.6 * starPulse 0 * 0.8 + ray * rays p 0 * 0.4 * starPulse 0 * 0.5)"
    unfolding e by simp
  show ?thesis using shapes_steps [OF t l1 l2 l3 li s(4)] a unfolding p_def by blast
qed

lemma star_pixel:
  "\<exists>c a. sceneShader resolution 0 (Vec2 (201 / 400) (409 / 560)) = Some (c, a) \<and> 1.38 < a"
proof -
  have c: "centered resolution (Vec2 (201 / 400) (409 / 560)) = Some (Vec2 (1 / 560) (213 / 560))"
    by (simp add: centered_resolution)
  have "center_dist (Vec2 (201 / 400) (409 / 560))
      \<le> \<bar>vx (sub2 (Vec2 (201 / 400) (409 / 560)) (Vec2 0.5 0.5))\<bar>
        + \<bar>vy (sub2 (Vec2 (201 / 400) (409 / 560)) (Vec2 0.5 0.5))\<bar>"
    unfolding center_dist_def by (rule length2_le_sum)
  then have "center_dist (Vec2 (201 / 400) (409 / 560)) \<le> 0.4" by (simp add: sub2_def)
  then have v: "vignette (Vec2 (201 / 400) (409 / 560)) = Some 1" by (rule vignette_near)
  obtain k a where a: "shapes (Vec2 (1 / 560) (213 / 560)) 0 = Some (k, a)" "1.38 < a"
    using shapes_star_pixel by blast
  show ?thesis using sceneShader_steps(2) [OF c a(1) v] a(2) by simp
qed

section \<open>The pixel evaluation as a whole\<close>

text \<open>
  Claim C1, as amended. For every normalized coordinate and every time value, with the
  fixed 200 x 280 resolution, the pixel evaluation returns a result whose alpha lies in
  the interval from 0 to 1.68: the stages take the maximum of the running alpha with
  sums that can exceed 1 (up to 1.25 at a light, up to 1.68 at the star), and nothing
  clamps the result.
\<close>

theorem alpha_range:
  "\<exists>c a. sceneShader resolution t uv = Some (c, a) \<and> 0 \<le> a \<and> a \<le> 1.68"
proof -
  obtain c a where a: "accumulated resolution t uv = Some (c, a)" "0 \<le> a" "a \<le> 1.68"
    using accumulated_alpha [of t uv] by auto
  obtain v where v: "vignette uv = Some v" "0 \<le> v" "v \<le> 1"
    using vignette_range by blast
  have s: "sceneShader resolution t uv = Some (c, a * v)"
    unfolding sceneShader_def by (simp add: a(1) v(1))
  have "a * v \<le> a * 1" using a(2) v(3) by (intro mult_left_mono) simp_all
  then have "0 \<le> a * v \<and> a * v \<le> 1.68" using a(2,3) v(2) by simp
  then show ?thesis using s by blast
qed

text \<open>
  Claim C1 as stated fails at the centre of pixel (100, 204), the normalized coordinate
  \<open>(201/400, 409/560)\<close>, at time 0: the pixel is next to the star anchor and its final
  alpha is above 1.38.
\<close>

theorem alpha_above_one_counterexample:
  "(case sceneShader resolution 0 (Vec2 (201 / 400) (409 / 560)) of
      None \<Rightarrow> False
    | Some (c, a) \<Rightarrow> 1.38 < a \<and> \<not> (0 \<le> a \<and> a \<le> 1))"
  using star_pixel by auto

text \<open>
  Claim C4, as amended. With resolution 200 x 280 and time 0: at \<open>(0.5, 0.20)\<close> the shader
  yields alpha 1 and the green colour of foliage layer 1 (red component 0); the trunk is
  lower, and at \<open>(0.5, 0.08)\<close> the shader yields the non-zero alpha \<open>3332/3375\<close> and the
  brown colour \<open>(0.28, 0.154, 0.07)\<close>; at \<open>(0.02, 0.02)\<close> the alpha before the vignette
  multiplication is exactly 0.
\<close>

theorem end_to_end_pixels:
  "sceneShader resolution 0 (Vec2 0.5 0.20) = Some (Vec3 0 (31431 / 70000) (3469 / 14000), 1) \<and>
   sceneShader resolution 0 (Vec2 0.5 0.08) = Some (Vec3 0.28 0.154 0.07, 3332 / 3375) \<and>
   accumulated resolution 0 (Vec2 0.02 0.02) = Some (Vec3 0 0 0, 0)"
  using foliage_pixel trunk_pixel background_pixel by (simp only: simp_thms)

text \<open>
  Claim C4 as stated fails at its first pixel: \<open>(0.5, 0.20)\<close> is centered to
  \<open>p = (0, -0.15)\<close>, above the trunk band (\<open>p.y < trunkTop = -0.22\<close> fails) and inside
  layer 1, and the colour there is green with no red, not a brown tone.
\<close>

theorem trunk_pixel_counterexample:
  "centered resolution (Vec2 0.5 0.20) = Some (Vec2 0 (- 0.15)) \<and>
   \<not> vy (Vec2 0 (- 0.15)) < trunkTop \<and>
   in_band layer1Bottom layer1Top (Vec2 0 (- 0.15)) \<and>
   sceneShader resolution 0 (Vec2 0.5 0.20) = Some (Vec3 0 (31431 / 70000) (3469 / 14000), 1)"
  using foliage_pixel
  by (simp add: centered_resolution trunk_consts in_band_def layer_consts)

text \<open>
  Claim C8. For every normalized coordinate and time, with the fixed 200 x 280
  resolution, the pixel evaluation meets no zero divisor (it does not return \<open>None\<close>).
  In particular a layer block with distinct bottom and top meets none at any pixel (the
  division by the half-width is behind the test \<^verbatim>\<open>abs(p.x) < layerWidth\<close>, the shade
  division has the divisor \<^verbatim>\<open>max(layerWidth, 0.01)\<close>), and neither does the trunk.
\<close>

theorem no_zero_divisor:
  "sceneShader resolution t uv \<noteq> None \<and>
   (\<forall>lb lt w p acc. lb \<noteq> lt \<longrightarrow> layer lb lt w p t acc \<noteq> None) \<and>
   (\<forall>p acc. trunk p t acc \<noteq> None)"
proof -
  have 1: "sceneShader resolution t uv \<noteq> None"
  proof -
    obtain c a where a: "accumulated resolution t uv = Some (c, a)"
      using accumulated_alpha [of t uv] by auto
    obtain v where v: "vignette uv = Some v" using vignette_range by blast
    show ?thesis unfolding sceneShader_def by (simp add: a v)
  qed
  have 2: "layer lb lt w p t acc \<noteq> None" if "lb \<noteq> lt" for lb lt w p acc
    using layer_inside [OF that, of p w t acc] layer_outside [OF that, of p w t acc] by fastforce
  have 3: "trunk p t acc \<noteq> None" for p acc
    using trunk_inside [of p t acc] trunk_outside [of p t acc] by fastforce
  show ?thesis using 1 2 3 by blast
qed

theorem no_zero_divisor_witness:
  "sceneShader resolution 0 (Vec2 0.5 0.5) \<noteq> None \<and>
   layer layer1Bottom layer1Top layer1Width (Vec2 0 0) 0 (Vec3 0 0 0, 0) \<noteq> None \<and>
   trunk (Vec2 0 (- 0.25)) 0 (Vec3 0 0 0, 0) \<noteq> None"
  using no_zero_divisor [of 0 "Vec2 0.5 0.5"] layer_consts_ne(1) by blast

end
